theory Spec2Isabelle
  imports Complex_Main
begin

section \<open>Values, errors and the execution context\<close>

text \<open>
  The orchestrator of \<^verbatim>\<open>src/core\<close> runs a list of steps against a shared, mutable
  \<^verbatim>\<open>WorkflowContext\<close>. Mutation is modelled by state passing, exceptions by the left
  summand of a sum type, \<^verbatim>\<open>Date\<close> objects by their epoch milliseconds, and the nullable
  fields of the source by \<open>option\<close>. Calls of the logger change nothing that the
  program reads and are left out. A field keeps its name in the source unless the name
  is taken: the fields of \<^verbatim>\<open>StepOutput\<close> carry the prefix \<open>so_\<close>, those of the report
  records a prefix of their own, and the step's \<^verbatim>\<open>config\<close>, \<^verbatim>\<open>startTime\<close>, \<^verbatim>\<open>endTime\<close> and
  \<^verbatim>\<open>output\<close> are \<open>stepConfig\<close>, \<open>stepStartTime\<close>, \<open>stepEndTime\<close> and \<open>outputValue\<close>.
\<close>

text \<open>Values of type \<^verbatim>\<open>any\<close> that the blackboard and the step outputs hold.\<close>

datatype js_value = VUndefined | VNull | VBool bool | VNum int | VStr string

text \<open>
  The error classes of \<^verbatim>\<open>types/index.ts\<close>, with the plain \<^verbatim>\<open>Error\<close> and the
  \<^verbatim>\<open>TypeError\<close> that a property read on \<^verbatim>\<open>null\<close> throws. Each constructor carries the
  message first; \<open>ExecutionError\<close> then has \<^verbatim>\<open>step\<close> and \<^verbatim>\<open>retryable\<close>,
  \<open>WorkflowError\<close> has \<^verbatim>\<open>step\<close> and \<^verbatim>\<open>type\<close>.
\<close>

datatype js_error =
    PlainError string
  | TypeError string
  | ValidationError string
  | ExecutionError string string bool
  | WorkflowError string string string

fun message :: "js_error \<Rightarrow> string" where
  "message (PlainError m) = m"
| "message (TypeError m) = m"
| "message (ValidationError m) = m"
| "message (ExecutionError m s r) = m"
| "message (WorkflowError m s t) = m"

fun constructor_name :: "js_error \<Rightarrow> string" where
  "constructor_name (PlainError m) = ''Error''"
| "constructor_name (TypeError m) = ''TypeError''"
| "constructor_name (ValidationError m) = ''ValidationError''"
| "constructor_name (ExecutionError m s r) = ''ExecutionError''"
| "constructor_name (WorkflowError m s t) = ''WorkflowError''"

fun instanceof_ExecutionError :: "js_error \<Rightarrow> bool" where
  "instanceof_ExecutionError (ExecutionError m s r) = True"
| "instanceof_ExecutionError e = False"

fun instanceof_WorkflowError :: "js_error \<Rightarrow> bool" where
  "instanceof_WorkflowError (WorkflowError m s t) = True"
| "instanceof_WorkflowError e = False"

datatype status = PENDING | RUNNING | COMPLETED | FAILED

text \<open>\<^verbatim>\<open>StepOutput\<close>: the \<^verbatim>\<open>duration\<close> field is optional in the interface.\<close>

record step_output =
  so_status :: status
  so_startTime :: "nat option"
  so_endTime :: "nat option"
  so_output :: js_value
  so_error :: "js_error option"
  so_duration :: "int option"

record metadata =
  workflowId :: string
  startTime :: "nat option"
  endTime :: "nat option"
  totalSteps :: nat
  completedSteps :: nat
  failedSteps :: nat

text \<open>
  A JavaScript \<^verbatim>\<open>Map\<close> keeps its keys in insertion order, and the report lists the step
  records in that order, so both maps are association lists: \<open>map_set\<close> replaces the
  value of a present key in place and appends an absent one; \<open>map_get\<close> is \<^verbatim>\<open>Map.get\<close>
  with \<open>None\<close> for \<^verbatim>\<open>undefined\<close>.
\<close>

fun map_set :: "'k \<Rightarrow> 'v \<Rightarrow> ('k \<times> 'v) list \<Rightarrow> ('k \<times> 'v) list" where
  "map_set k v [] = [(k, v)]"
| "map_set k v ((k', v') # kvs) =
     (if k' = k then (k, v) # kvs else (k', v') # map_set k v kvs)"

fun map_get :: "'k \<Rightarrow> ('k \<times> 'v) list \<Rightarrow> 'v option" where
  "map_get k [] = None"
| "map_get k ((k', v') # kvs) = (if k' = k then Some v' else map_get k kvs)"

record wf_context =
  data :: "(string \<times> js_value) list"
  metadata :: metadata
  stepOutputs :: "(string \<times> step_output) list"
  errors :: "js_error list"

text \<open>
  The constructor of \<^verbatim>\<open>WorkflowContext\<close>. The identifier that \<^verbatim>\<open>uuidv4()\<close> would return
  is the parameter \<open>uuid\<close>; an empty \<open>wid\<close> is falsy and is replaced by it.
\<close>

definition new_context :: "string \<Rightarrow> string \<Rightarrow> nat \<Rightarrow> wf_context" where
  "new_context uuid wid n =
     \<lparr> data = [],
       metadata = \<lparr> workflowId = (if wid = [] then uuid else wid),
                    startTime = None, endTime = None,
                    totalSteps = n, completedSteps = 0, failedSteps = 0 \<rparr>,
       stepOutputs = [],
       errors = [] \<rparr>"

definition setData :: "string \<Rightarrow> js_value \<Rightarrow> wf_context \<Rightarrow> wf_context" where
  "setData key v c = c\<lparr> data := map_set key v (data c) \<rparr>"

definition getData :: "string \<Rightarrow> wf_context \<Rightarrow> js_value option" where
  "getData key c = map_get key (data c)"

text \<open>
  \<^verbatim>\<open>setStepOutput\<close>: every stored record is an object and hence truthy, so the test
  \<^verbatim>\<open>if (currentOutput)\<close> is the test for presence. \<open>now\<close> is what \<^verbatim>\<open>new Date()\<close> reads.
\<close>

definition setStepOutput :: "nat \<Rightarrow> string \<Rightarrow> js_value \<Rightarrow> wf_context \<Rightarrow> wf_context" where
  "setStepOutput now stepName out c =
     (case map_get stepName (stepOutputs c) of
        Some currentOutput \<Rightarrow>
          c\<lparr> stepOutputs := map_set stepName (currentOutput\<lparr> so_output := out \<rparr>) (stepOutputs c) \<rparr>
      | None \<Rightarrow>
          c\<lparr> stepOutputs := map_set stepName
                \<lparr> so_status = COMPLETED, so_startTime = Some now, so_endTime = Some now,
                  so_output = out, so_error = None, so_duration = Some 0 \<rparr>
                (stepOutputs c) \<rparr>)"

definition getStepOutput :: "string \<Rightarrow> wf_context \<Rightarrow> step_output option" where
  "getStepOutput stepName c = map_get stepName (stepOutputs c)"

section \<open>Error classification\<close>

text \<open>\<^verbatim>\<open>String.prototype.startsWith\<close> and \<^verbatim>\<open>includes\<close>, case-sensitive.\<close>

fun startsWith :: "string \<Rightarrow> string \<Rightarrow> bool" where
  "startsWith s [] = True"
| "startsWith [] (p # ps) = False"
| "startsWith (c # cs) (p # ps) = (c = p \<and> startsWith cs ps)"

fun str_includes :: "string \<Rightarrow> string \<Rightarrow> bool" where
  "str_includes [] sub = (sub = [])"
| "str_includes (c # cs) sub = (startsWith (c # cs) sub \<or> str_includes cs sub)"

text \<open>
  The reading of ``substring'' that the classification is checked against: the needle
  occurs somewhere in the text.
\<close>

definition occurs_in :: "string \<Rightarrow> string \<Rightarrow> bool" where
  "occurs_in sub s \<longleftrightarrow> (\<exists>pre post. s = pre @ sub @ post)"

datatype severity = LOW | MEDIUM | HIGH

record error_info =
  etype :: string
  severity :: severity
  retryable :: bool
  originStep :: string

fun classifyError :: "js_error \<Rightarrow> error_info" where
  "classifyError (ExecutionError m s r) =
     \<lparr> etype = ''EXECUTION'', severity = MEDIUM, retryable = r, originStep = s \<rparr>"
| "classifyError e =
     (if str_includes (message e) ''validation'' then
        \<lparr> etype = ''VALIDATION'', severity = HIGH, retryable = False, originStep = ''VALIDATION'' \<rparr>
      else if str_includes (message e) ''timeout'' then
        \<lparr> etype = ''TIMEOUT'', severity = MEDIUM, retryable = True, originStep = ''TIMEOUT'' \<rparr>
      else if str_includes (message e) ''network'' then
        \<lparr> etype = ''NETWORK'', severity = MEDIUM, retryable = True, originStep = ''NETWORK'' \<rparr>
      else
        \<lparr> etype = ''UNKNOWN'', severity = HIGH, retryable = False, originStep = ''UNKNOWN'' \<rparr>)"

datatype retry_strategy = exponential | linear | fixed

text \<open>\<^verbatim>\<open>ErrorHandlingConfig\<close>; \<^verbatim>\<open>maxRetries\<close> is a count, taken as a natural number.\<close>

record error_handling_config =
  maxRetries :: nat
  retryStrategy :: retry_strategy
  fallbackEnabled :: bool

definition shouldRetry :: "error_handling_config \<Rightarrow> error_info \<Rightarrow> bool" where
  "shouldRetry cfg info \<longleftrightarrow> retryable info \<and> severity info \<noteq> HIGH \<and> maxRetries cfg > 0"

text \<open>The wait of each backoff strategy before retry number \<open>retryCount\<close>, in milliseconds.\<close>

fun delay :: "retry_strategy \<Rightarrow> nat \<Rightarrow> nat" where
  "delay exponential retryCount = 2 ^ retryCount * 1000"
| "delay linear retryCount = (retryCount + 1) * 1000"
| "delay fixed retryCount = 2000"

section \<open>Steps and the shared state of a run\<close>

text \<open>
  A step is an object with the public fields of \<^verbatim>\<open>Step\<close> and an \<^verbatim>\<open>execute\<close> method
  supplied by its variant. The variants of the repository act on the context through
  \<^verbatim>\<open>setData\<close> and \<^verbatim>\<open>setStepOutput\<close> and then resolve or reject, so one invocation of
  \<^verbatim>\<open>execute\<close> is described by the context operations it performs, the time it takes and
  its result (\<open>Inl\<close> a rejection, \<open>Inr\<close> the resolved value). The method may read the
  whole context and, like a mock with queued results, may answer differently from call to
  call: \<open>body s k c\<close> is what call number \<open>k\<close> (from 0) does when the context is \<open>c\<close>.
  The field \<open>calls\<close> counts the invocations of \<^verbatim>\<open>execute\<close>. What a step throws is an
  \<^verbatim>\<open>Error\<close> object, and every call returns. The steps of a pipeline are distinct objects.
\<close>

datatype ctx_op = SetData string js_value | SetStepOutput string js_value

record attempt =
  result :: "js_error + js_value"
  writes :: "ctx_op list"
  elapsed :: nat

record step =
  name :: string
  stepConfig :: "(string \<times> js_value) list"
  status :: status
  stepStartTime :: "nat option"
  stepEndTime :: "nat option"
  error :: "js_error option"
  outputValue :: js_value
  duration :: int
  calls :: nat
  body :: "nat \<Rightarrow> wf_context \<Rightarrow> attempt"

definition new_step :: "string \<Rightarrow> (string \<times> js_value) list \<Rightarrow> (nat \<Rightarrow> wf_context \<Rightarrow> attempt) \<Rightarrow> step" where
  "new_step nm cfg b =
     \<lparr> name = nm, stepConfig = cfg, status = PENDING, stepStartTime = None, stepEndTime = None,
       error = None, outputValue = VNull, duration = 0, calls = 0, body = b \<rparr>"

text \<open>
  What the components of one run share: the context object, the wall clock that
  \<^verbatim>\<open>new Date()\<close> reads, and the two host readings that the report includes. \<open>observed\<close>
  is a history: the context as it is after its construction and after each assignment to
  it, oldest first. It is never read by the program; it serves to state what holds at
  every point of a run.
\<close>

record world =
  ctx :: wf_context
  clock :: nat
  heapUsed :: nat
  cpuUser :: nat
  observed :: "wf_context list"

definition mutate :: "(wf_context \<Rightarrow> wf_context) \<Rightarrow> world \<Rightarrow> world" where
  "mutate f w = w\<lparr> ctx := f (ctx w), observed := observed w @ [f (ctx w)] \<rparr>"

definition sleep :: "nat \<Rightarrow> world \<Rightarrow> world" where
  "sleep ms w = w\<lparr> clock := clock w + ms \<rparr>"

fun perform :: "ctx_op \<Rightarrow> world \<Rightarrow> world" where
  "perform (SetData k v) w = mutate (setData k v) w"
| "perform (SetStepOutput n v) w = mutate (setStepOutput (clock w) n v) w"

definition perform_all :: "ctx_op list \<Rightarrow> world \<Rightarrow> world" where
  "perform_all ops w = foldl (\<lambda>w' opn. perform opn w') w ops"

text \<open>One call \<^verbatim>\<open>await step.execute(context)\<close>.\<close>

definition invoke :: "step \<Rightarrow> world \<Rightarrow> (js_error + js_value) \<times> step \<times> world" where
  "invoke s w =
     (let a = body s (calls s) (ctx w)
      in (result a, s\<lparr> calls := calls s + 1 \<rparr>, perform_all (writes a) (sleep (elapsed a) w)))"

definition inc_failedSteps :: "wf_context \<Rightarrow> wf_context" where
  "inc_failedSteps c = c\<lparr> metadata := (metadata c)\<lparr> failedSteps := failedSteps (metadata c) + 1 \<rparr> \<rparr>"

definition inc_completedSteps :: "wf_context \<Rightarrow> wf_context" where
  "inc_completedSteps c =
     c\<lparr> metadata := (metadata c)\<lparr> completedSteps := completedSteps (metadata c) + 1 \<rparr> \<rparr>"

definition push_error :: "js_error \<Rightarrow> wf_context \<Rightarrow> wf_context" where
  "push_error e c = c\<lparr> errors := errors c @ [e] \<rparr>"

text \<open>\<^verbatim>\<open>Step.handleError\<close>, the failure-recording operation of a step.\<close>

definition Step_handleError :: "js_error \<Rightarrow> step \<Rightarrow> world \<Rightarrow> step \<times> world" where
  "Step_handleError e s w =
     (s\<lparr> error := Some e, status := FAILED, stepEndTime := Some (clock w) \<rparr>,
      mutate inc_failedSteps (mutate (push_error e) w))"

section \<open>The error handler\<close>

text \<open>
  The loop of \<^verbatim>\<open>executeRetry\<close>: wait, call \<^verbatim>\<open>step.execute\<close> again, return on the first
  success; after a failure count it, and rethrow it once the count reaches
  \<^verbatim>\<open>maxRetries\<close>.
\<close>

function retry_loop ::
  "error_handling_config \<Rightarrow> nat \<Rightarrow> step \<Rightarrow> world \<Rightarrow> (js_error + unit) \<times> step \<times> world" where
  "retry_loop cfg retryCount s w =
     (if retryCount < maxRetries cfg then
        (case invoke s (sleep (delay (retryStrategy cfg) retryCount) w) of
           (Inr v, s', w') \<Rightarrow> (Inr (), s', w')
         | (Inl retryError, s', w') \<Rightarrow>
             if retryCount + 1 \<ge> maxRetries cfg then (Inl retryError, s', w')
             else retry_loop cfg (retryCount + 1) s' w')
      else (Inr (), s, w))"
  by pat_completeness auto
termination
  by (relation "measure (\<lambda>(cfg, retryCount, s, w). maxRetries cfg - retryCount)") auto

definition executeRetry ::
  "error_handling_config \<Rightarrow> js_error \<Rightarrow> step \<Rightarrow> world \<Rightarrow> (js_error + unit) \<times> step \<times> world" where
  "executeRetry cfg e s w = retry_loop cfg 0 s w"

definition executeFallback :: "error_info \<Rightarrow> step \<Rightarrow> world \<Rightarrow> world" where
  "executeFallback info s w =
     (if etype info = ''VALIDATION'' then mutate (setData (name s @ ''_fallback'') (VBool True)) w
      else if etype info = ''NETWORK'' then mutate (setData (name s @ ''_fallback'') (VStr ''cached'')) w
      else w)"

definition ErrorHandler_handleError ::
  "error_handling_config \<Rightarrow> js_error \<Rightarrow> step \<Rightarrow> world \<Rightarrow> (js_error + unit) \<times> step \<times> world" where
  "ErrorHandler_handleError cfg e s w =
     (let errorInfo = classifyError e
      in if shouldRetry cfg errorInfo then executeRetry cfg e s w
         else (Inr (), s, executeFallback errorInfo s w))"

section \<open>The orchestrator\<close>

text \<open>The fields of \<^verbatim>\<open>WorkflowConfig\<close> that the orchestrator reads.\<close>

record workflow_config =
  cfg_workflowId :: string
  cfg_name :: string
  errorHandling :: error_handling_config

record orchestrator =
  config :: workflow_config
  steps :: "step list"
  state :: world

text \<open>
  The constructor. \<open>uuid\<close> is what \<^verbatim>\<open>uuidv4()\<close> would return, \<open>now\<close> the clock, \<open>heap\<close>
  and \<open>cpu\<close> the readings of \<^verbatim>\<open>process.memoryUsage().heapUsed\<close> and
  \<^verbatim>\<open>process.cpuUsage().user\<close>.
\<close>

definition new_orchestrator :: "workflow_config \<Rightarrow> string \<Rightarrow> nat \<Rightarrow> nat \<Rightarrow> nat \<Rightarrow> orchestrator" where
  "new_orchestrator cfg uuid now heap cpu =
     \<lparr> config = cfg, steps = [],
       state = \<lparr> ctx = new_context uuid (cfg_workflowId cfg) 0, clock = now,
                 heapUsed = heap, cpuUser = cpu,
                 observed = [new_context uuid (cfg_workflowId cfg) 0] \<rparr> \<rparr>"

definition set_totalSteps :: "nat \<Rightarrow> wf_context \<Rightarrow> wf_context" where
  "set_totalSteps n c = c\<lparr> metadata := (metadata c)\<lparr> totalSteps := n \<rparr> \<rparr>"

definition set_startTime :: "nat \<Rightarrow> wf_context \<Rightarrow> wf_context" where
  "set_startTime t c = c\<lparr> metadata := (metadata c)\<lparr> startTime := Some t \<rparr> \<rparr>"

definition set_endTime :: "nat \<Rightarrow> wf_context \<Rightarrow> wf_context" where
  "set_endTime t c = c\<lparr> metadata := (metadata c)\<lparr> endTime := Some t \<rparr> \<rparr>"

definition addStep :: "step \<Rightarrow> orchestrator \<Rightarrow> orchestrator" where
  "addStep s orc =
     orc\<lparr> steps := steps orc @ [s],
          state := mutate (set_totalSteps (length (steps orc @ [s]))) (state orc) \<rparr>"

definition validateWorkflow :: "step list \<Rightarrow> js_error + unit" where
  "validateWorkflow ss =
     (if length ss = 0 then
        Inl (WorkflowError ''No steps configured for workflow'' ''WORKFLOW'' ''WORKFLOW_ERROR'')
      else if length ss < 3 then
        Inl (WorkflowError ''Workflow must have at least 3 steps'' ''WORKFLOW'' ''WORKFLOW_ERROR'')
      else Inr ())"

text \<open>
  \<^verbatim>\<open>executeStep\<close>. The local object \<^verbatim>\<open>stepOutput\<close> is stored under the step's name before
  the call and again after it; a record that the step itself stored in between through
  \<^verbatim>\<open>setStepOutput\<close> is a fresh object and is overwritten by the second store.
\<close>

definition executeStep ::
  "error_handling_config \<Rightarrow> step \<Rightarrow> world \<Rightarrow> (js_error + unit) \<times> step \<times> world" where
  "executeStep cfg s w =
     (let s1 = s\<lparr> status := RUNNING, stepStartTime := Some (clock w) \<rparr>;
          stepOutput = \<lparr> so_status = RUNNING, so_startTime = Some (clock w), so_endTime = None,
                         so_output = VNull, so_error = None, so_duration = None \<rparr>;
          w1 = mutate (\<lambda>c. c\<lparr> stepOutputs := map_set (name s1) stepOutput (stepOutputs c) \<rparr>) w
      in case invoke s1 w1 of
           (Inr res, s2, w2) \<Rightarrow>
             (let d = int (clock w2) - int (clock w);
                  s3 = s2\<lparr> status := COMPLETED, stepEndTime := Some (clock w2),
                           outputValue := res, duration := d \<rparr>;
                  stepOutput' = stepOutput\<lparr> so_status := COMPLETED, so_endTime := Some (clock w2),
                                            so_output := res, so_duration := Some d \<rparr>;
                  w3 = mutate (\<lambda>c. c\<lparr> stepOutputs := map_set (name s3) stepOutput' (stepOutputs c) \<rparr>) w2
              in (Inr (), s3, mutate inc_completedSteps w3))
         | (Inl err, s2, w2) \<Rightarrow>
             (case Step_handleError err s2 w2 of
                (s3, w3) \<Rightarrow>
                  (let stepOutput' = stepOutput\<lparr> so_status := FAILED, so_endTime := stepEndTime s3,
                          so_error := error s3,
                          so_duration := Some (case stepEndTime s3 of
                                                 Some t \<Rightarrow> int t - int (clock w) | None \<Rightarrow> 0) \<rparr>;
                       w4 = mutate (\<lambda>c. c\<lparr> stepOutputs := map_set (name s3) stepOutput' (stepOutputs c) \<rparr>) w3
                   in ErrorHandler_handleError cfg err s3 w4)))"

text \<open>
  The \<^verbatim>\<open>for\<close> loop of \<^verbatim>\<open>execute\<close> over the steps in declaration order, with the abort
  check after each step. The step objects are returned as the loop left them.
\<close>

fun run_steps ::
  "error_handling_config \<Rightarrow> step list \<Rightarrow> world \<Rightarrow> (js_error + unit) \<times> step list \<times> world" where
  "run_steps cfg [] w = (Inr (), [], w)"
| "run_steps cfg (s # ss) w =
     (case executeStep cfg s w of
        (Inl e, s', w') \<Rightarrow> (Inl e, s' # ss, w')
      | (Inr u, s', w') \<Rightarrow>
          if status s' = FAILED \<and> \<not> fallbackEnabled cfg then
            (Inl (WorkflowError (''Workflow failed at step: '' @ name s') (name s') ''WORKFLOW_ERROR''),
             s' # ss, w')
          else (case run_steps cfg ss w' of (r, ss', w'') \<Rightarrow> (r, s' # ss', w'')))"

subsection \<open>The execution report\<close>

text \<open>
  JavaScript numbers are IEEE 754 doubles. \<open>to_double\<close> rounds a real number to the
  nearest double, ties to the even significand: between \<open>2 ^ e\<close> and \<open>2 ^ (e + 1)\<close> the
  doubles are the multiples of \<open>2 ^ (e - 52)\<close>. Overflow and subnormal numbers are left out;
  quotients of step counts and of millisecond durations are far from both. A number that
  results from a division is such a double, or what division by zero gives.
\<close>

definition round_half_even :: "real \<Rightarrow> int" where
  "round_half_even x =
     (let f = \<lfloor>x\<rfloor>; d = x - of_int f
      in if d < 1 / 2 then f else if 1 / 2 < d then f + 1 else if even f then f else f + 1)"

definition to_double :: "real \<Rightarrow> real" where
  "to_double x =
     (if x = 0 then 0
      else (let ulp = 2 powr (of_int \<lfloor>log 2 \<bar>x\<bar>\<rfloor> - 52)
            in of_int (round_half_even (x / ulp)) * ulp))"

datatype js_number = Num real | NaN | PosInfinity | NegInfinity

text \<open>The quotient \<^verbatim>\<open>a / b\<close> of two doubles, and the product \<^verbatim>\<open>x * 100\<close>.\<close>

definition js_div :: "real \<Rightarrow> real \<Rightarrow> js_number" where
  "js_div a b =
     (if b \<noteq> 0 then Num (to_double (a / b))
      else if a = 0 then NaN else if a > 0 then PosInfinity else NegInfinity)"

fun times100 :: "js_number \<Rightarrow> js_number" where
  "times100 (Num a) = Num (to_double (a * 100))"
| "times100 NaN = NaN"
| "times100 PosInfinity = PosInfinity"
| "times100 NegInfinity = NegInfinity"

datatype report_status = REPORT_COMPLETED | REPORT_FAILED | REPORT_PARTIAL

record step_execution_summary =
  ses_name :: string
  ses_status :: status
  ses_startTime :: "nat option"
  ses_endTime :: "nat option"
  ses_duration :: int
  ses_error :: "string option"

record error_summary =
  es_step :: string
  es_message :: string
  es_type :: string
  es_timestamp :: nat

record performance_metrics =
  totalExecutionTime :: int
  averageStepTime :: js_number
  memoryUsage :: nat
  cpuUsage :: nat

record report_summary =
  sum_totalSteps :: nat
  sum_completedSteps :: nat
  sum_failedSteps :: nat
  successRate :: js_number

record execution_report =
  rep_workflowId :: string
  rep_status :: report_status
  rep_startTime :: nat
  rep_endTime :: nat
  rep_duration :: int
  rep_steps :: "step_execution_summary list"
  rep_summary :: report_summary
  rep_errors :: "error_summary list"
  rep_metrics :: performance_metrics

definition step_summary :: "string \<times> step_output \<Rightarrow> step_execution_summary" where
  "step_summary entry =
     (case entry of (stepName, out) \<Rightarrow>
        \<lparr> ses_name = stepName,
          ses_status = (if so_status out = COMPLETED then COMPLETED else FAILED),
          ses_startTime = so_startTime out,
          ses_endTime = so_endTime out,
          ses_duration = (case so_duration out of Some d \<Rightarrow> d | None \<Rightarrow> 0),
          ses_error = (case so_error out of
                         Some e \<Rightarrow> if message e = [] then None else Some (message e)
                       | None \<Rightarrow> None) \<rparr>)"

text \<open>
  \<^verbatim>\<open>generateExecutionReport\<close>. Its first statement reads \<^verbatim>\<open>endTime!.getTime()\<close> and then
  \<^verbatim>\<open>startTime!.getTime()\<close>; the non-null assertions are erased at compile time, so a
  \<^verbatim>\<open>null\<close> timestamp throws a \<^verbatim>\<open>TypeError\<close>. Timestamps of the report are the epoch
  milliseconds that \<^verbatim>\<open>toISOString\<close> would print.
\<close>

definition generateExecutionReport :: "orchestrator \<Rightarrow> js_error + execution_report" where
  "generateExecutionReport orc =
     (let c = ctx (state orc); m = metadata c
      in case endTime m of
           None \<Rightarrow> Inl (TypeError ''Cannot read properties of null (reading getTime)'')
         | Some te \<Rightarrow>
            (case startTime m of
               None \<Rightarrow> Inl (TypeError ''Cannot read properties of null (reading getTime)'')
             | Some ts \<Rightarrow>
                (let d = int te - int ts
                 in Inr \<lparr> rep_workflowId = cfg_workflowId (config orc),
                          rep_status = (if failedSteps m = 0 then REPORT_COMPLETED else REPORT_FAILED),
                          rep_startTime = ts,
                          rep_endTime = te,
                          rep_duration = d,
                          rep_steps = map step_summary (stepOutputs c),
                          rep_summary =
                            \<lparr> sum_totalSteps = totalSteps m,
                              sum_completedSteps = completedSteps m,
                              sum_failedSteps = failedSteps m,
                              successRate =
                                times100 (js_div (real (completedSteps m)) (real (totalSteps m))) \<rparr>,
                          rep_errors =
                            map (\<lambda>e. \<lparr> es_step = ''UNKNOWN'', es_message = message e,
                                       es_type = constructor_name e,
                                       es_timestamp = clock (state orc) \<rparr>) (errors c),
                          rep_metrics =
                            \<lparr> totalExecutionTime = d,
                              averageStepTime = js_div (real_of_int d) (real (totalSteps m)),
                              memoryUsage = heapUsed (state orc),
                              cpuUsage = cpuUser (state orc) \<rparr> \<rparr>)))"

definition getExecutionReport :: "orchestrator \<Rightarrow> js_error + execution_report" where
  "getExecutionReport orc = generateExecutionReport orc"

subsection \<open>The run\<close>

text \<open>
  The \<^verbatim>\<open>catch\<close> block of \<^verbatim>\<open>execute\<close>: it sets \<^verbatim>\<open>endTime\<close>, rethrows a
  \<^verbatim>\<open>WorkflowError\<close> as it is and wraps any other error.
\<close>

definition execute_catch ::
  "js_error \<Rightarrow> orchestrator \<Rightarrow> (js_error + execution_report) \<times> orchestrator" where
  "execute_catch e orc =
     (Inl (if instanceof_WorkflowError e then e
           else WorkflowError (''Unexpected workflow error: '' @ message e) ''WORKFLOW'' ''WORKFLOW_ERROR''),
      orc\<lparr> state := mutate (set_endTime (clock (state orc))) (state orc) \<rparr>)"

definition execute :: "orchestrator \<Rightarrow> (js_error + execution_report) \<times> orchestrator" where
  "execute orc =
     (let orc0 = orc\<lparr> state := mutate (set_startTime (clock (state orc))) (state orc) \<rparr>
      in case validateWorkflow (steps orc0) of
           Inl e \<Rightarrow> execute_catch e orc0
         | Inr u \<Rightarrow>
            (case run_steps (errorHandling (config orc0)) (steps orc0) (state orc0) of
               (Inl e, ss, w1) \<Rightarrow> execute_catch e (orc0\<lparr> steps := ss, state := w1 \<rparr>)
             | (Inr u', ss, w1) \<Rightarrow>
                (let orc1 = orc0\<lparr> steps := ss, state := mutate (set_endTime (clock w1)) w1 \<rparr>
                 in case generateExecutionReport orc1 of
                      Inl e \<Rightarrow> execute_catch e orc1
                    | Inr rep \<Rightarrow> (Inr rep, orc1))))"

subsection \<open>Steps with queued results\<close>

text \<open>
  A step whose \<^verbatim>\<open>execute\<close> is a mock function with queued results, as the tests of
  the error handler build it with \<^verbatim>\<open>mockRejectedValueOnce\<close> and
  \<^verbatim>\<open>mockResolvedValueOnce\<close>: call number \<open>k\<close> takes the \<open>k\<close>-th queued result, and
  \<^verbatim>\<open>undefined\<close> once the queue is used up. It does not touch the context.
\<close>

datatype queued = Rejected js_error | Resolved js_value

definition mock_fn :: "queued list \<Rightarrow> nat \<Rightarrow> wf_context \<Rightarrow> attempt" where
  "mock_fn queue k c =
     (if k < length queue then
        (case queue ! k of
           Rejected e \<Rightarrow> \<lparr> result = Inl e, writes = [], elapsed = 0 \<rparr>
         | Resolved v \<Rightarrow> \<lparr> result = Inr v, writes = [], elapsed = 0 \<rparr>)
      else \<lparr> result = Inr VUndefined, writes = [], elapsed = 0 \<rparr>)"

text \<open>
  A step in the manner of the repository's variants: it always succeeds after \<open>ms\<close>
  milliseconds with the value \<open>v\<close>, which it also stores under \<open>key\<close> and as its own
  step output.
\<close>

definition storing_fn :: "string \<Rightarrow> string \<Rightarrow> js_value \<Rightarrow> nat \<Rightarrow> nat \<Rightarrow> wf_context \<Rightarrow> attempt" where
  "storing_fn nm key v ms k c =
     \<lparr> result = Inr v, writes = [SetData key v, SetStepOutput nm v], elapsed = ms \<rparr>"

subsection \<open>Building an orchestrator; the counters during a run\<close>

text \<open>An orchestrator as client code builds it: constructed, then \<^verbatim>\<open>addStep\<close> per step.\<close>

definition assemble ::
  "workflow_config \<Rightarrow> string \<Rightarrow> nat \<Rightarrow> nat \<Rightarrow> nat \<Rightarrow> step list \<Rightarrow> orchestrator" where
  "assemble cfg uuid now heap cpu ss =
     foldl (\<lambda>orc s. addStep s orc) (new_orchestrator cfg uuid now heap cpu) ss"

definition counters_ok :: "metadata \<Rightarrow> bool" where
  "counters_ok m \<longleftrightarrow> completedSteps m + failedSteps m \<le> totalSteps m"

text \<open>
  The state of a run whose loop still has \<open>k\<close> steps to go: the counters leave room for
  them, the run has started and not ended, and so it was at every earlier point.
\<close>

definition running :: "nat \<Rightarrow> world \<Rightarrow> bool" where
  "running k w \<longleftrightarrow>
     list_all (\<lambda>c. counters_ok (metadata c) \<and> endTime (metadata c) = None) (observed w)
     \<and> completedSteps (metadata (ctx w)) + failedSteps (metadata (ctx w)) + k
          \<le> totalSteps (metadata (ctx w))
     \<and> endTime (metadata (ctx w)) = None
     \<and> startTime (metadata (ctx w)) \<noteq> None"

subsection \<open>Example pipelines\<close>

definition test_config :: "nat \<Rightarrow> bool \<Rightarrow> workflow_config" where
  "test_config retries fallback =
     \<lparr> cfg_workflowId = ''test-workflow'', cfg_name = ''Test Workflow'',
       errorHandling = \<lparr> maxRetries = retries, retryStrategy = exponential,
                         fallbackEnabled = fallback \<rparr> \<rparr>"

definition ok_step :: "string \<Rightarrow> step" where
  "ok_step nm = new_step nm [] (storing_fn nm (nm @ ''Data'') (VStr nm) 5)"

definition mock_step :: "string \<Rightarrow> queued list \<Rightarrow> step" where
  "mock_step nm queue = new_step nm [] (mock_fn queue)"

text \<open>
  The pipeline of the integration test ``should validate workflow before execution'': a
  single data-input step with the source type that the test calls invalid.
\<close>

definition single_step_pipeline :: orchestrator where
  "single_step_pipeline =
     assemble (test_config 3 True) ''uuid'' 1000 64 8
       [new_step ''DataInput'' [(''source.type'', VStr ''invalid-type'')]
          (storing_fn ''DataInput'' ''inputData'' (VStr ''TechCorp Inc'') 5)]"

text \<open>Three steps that succeed.\<close>

definition all_ok_pipeline :: orchestrator where
  "all_ok_pipeline =
     assemble (test_config 2 True) ''uuid'' 1000 64 8
       [ok_step ''DataInput'', ok_step ''Validation'', ok_step ''Report'']"

text \<open>The same orchestrator after one call of \<^verbatim>\<open>execute\<close>.\<close>

definition executed_once :: orchestrator where
  "executed_once = snd (execute all_ok_pipeline)"

text \<open>
  The second of three steps fails once with a network error and succeeds when called
  again; \<^verbatim>\<open>maxRetries\<close> is 2.
\<close>

definition flaky_pipeline :: "bool \<Rightarrow> orchestrator" where
  "flaky_pipeline fallback =
     assemble (test_config 2 fallback) ''uuid'' 1000 64 8
       [ok_step ''DataInput'',
        mock_step ''Validation'' [Rejected (PlainError ''network''), Resolved VUndefined],
        ok_step ''Report'']"

text \<open>The second of three steps fails with a network error on every call.\<close>

definition network_down_pipeline :: "bool \<Rightarrow> orchestrator" where
  "network_down_pipeline fallback =
     assemble (test_config 2 fallback) ''uuid'' 1000 64 8
       [ok_step ''DataInput'',
        mock_step ''Validation'' [Rejected (PlainError ''network''), Rejected (PlainError ''network''),
                                 Rejected (PlainError ''network'')],
        ok_step ''Report'']"

text \<open>
  The second of three steps rejects its input with the error that the repository's
  validation step throws for a broken business rule; the classification does not retry it.
\<close>

definition rejected_data_pipeline :: "bool \<Rightarrow> orchestrator" where
  "rejected_data_pipeline fallback =
     assemble (test_config 2 fallback) ''uuid'' 1000 64 8
       [ok_step ''DataInput'',
        mock_step ''Validation'' [Rejected (ValidationError ''Business rule validation failed'')],
        ok_step ''Report'']"

text \<open>
  Three steps, the first a data-input step configured with the source type that the
  integration test calls invalid. \<^verbatim>\<open>DataInputStep.loadData\<close> sends an unknown source
  type to its default branch, the mock data, so the step succeeds.
\<close>

definition invalid_config_pipeline :: orchestrator where
  "invalid_config_pipeline =
     assemble (test_config 3 True) ''uuid'' 1000 64 8
       [new_step ''DataInput'' [(''source.type'', VStr ''invalid-type'')]
          (storing_fn ''DataInput'' ''inputData'' (VStr ''TechCorp Inc'') 5),
        ok_step ''Validation'', ok_step ''Report'']"

section \<open>Basic facts\<close>

lemma map_get_map_set: "map_get k' (map_set k v m) = (if k' = k then Some v else map_get k' m)"
  by (induction m) auto

lemma startsWith_iff: "startsWith s p \<longleftrightarrow> (\<exists>post. s = p @ post)"
  by (induction s p rule: startsWith.induct) auto

lemma includes_iff: "str_includes s sub \<longleftrightarrow> occurs_in sub s"
proof (induction s)
  case Nil
  then show ?case by (auto simp: occurs_in_def)
next
  case (Cons c cs)
  show ?case
  proof
    assume "str_includes (c # cs) sub"
    then consider "startsWith (c # cs) sub" | "str_includes cs sub" by auto
    then show "occurs_in sub (c # cs)"
    proof cases
      case 1
      then obtain post where "c # cs = sub @ post" by (auto simp: startsWith_iff)
      then have "c # cs = [] @ sub @ post" by simp
      then show ?thesis unfolding occurs_in_def by blast
    next
      case 2
      with Cons obtain pre post where "cs = pre @ sub @ post" by (auto simp: occurs_in_def)
      then have "c # cs = (c # pre) @ sub @ post" by simp
      then show ?thesis unfolding occurs_in_def by blast
    qed
  next
    assume "occurs_in sub (c # cs)"
    then obtain pre post where eq: "c # cs = pre @ sub @ post" by (auto simp: occurs_in_def)
    show "str_includes (c # cs) sub"
    proof (cases pre)
      case Nil
      with eq have "startsWith (c # cs) sub" unfolding startsWith_iff by auto
      then show ?thesis by simp
    next
      case (Cons p pre')
      with eq have "cs = pre' @ sub @ post" by simp
      then have "occurs_in sub cs" unfolding occurs_in_def by blast
      with Cons.IH show ?thesis by simp
    qed
  qed
qed

subsection \<open>Rounding to a double\<close>

lemma to_double_binade:
  assumes "x \<noteq> 0" and "2 powr of_int e \<le> \<bar>x\<bar>" and "\<bar>x\<bar> < 2 powr of_int (e + 1)"
  shows "to_double x = of_int (round_half_even (x / 2 powr (of_int e - 52))) * 2 powr (of_int e - 52)"
proof -
  from assms have "\<lfloor>log 2 \<bar>x\<bar>\<rfloor> = e"
    by (subst floor_log_eq_powr_iff) simp_all
  with assms(1) show ?thesis by (simp add: to_double_def Let_def)
qed

lemma to_double_1: "to_double 1 = 1"
  using to_double_binade [of 1 0] by (simp add: powr_minus round_half_even_def)

lemma to_double_2: "to_double 2 = 2"
  using to_double_binade [of 2 1] by (simp add: powr_minus round_half_even_def)

lemma to_double_100: "to_double 100 = 100"
  using to_double_binade [of 100 6] by (simp add: powr_minus round_half_even_def)

lemma to_double_200: "to_double 200 = 200"
  using to_double_binade [of 200 7] by (simp add: powr_minus round_half_even_def)

lemma to_double_two_thirds: "to_double (2 / 3) = 6004799503160661 / 2 ^ 53"
  using to_double_binade [of "2 / 3" "-1"]
  by (simp add: powr_minus round_half_even_def)

lemma to_double_two_thirds_times_100:
  "to_double (6004799503160661 / 2 ^ 53 * 100) = 4691249611844266 / 2 ^ 46"
  using to_double_binade [of "6004799503160661 / 2 ^ 53 * 100" 6]
  by (simp add: powr_minus round_half_even_def)

lemma rate_two_of_three: "to_double (to_double (2 / 3) * 100) = 4691249611844266 / 2 ^ 46"
  by (simp only: to_double_two_thirds to_double_two_thirds_times_100)

subsection \<open>Projections of the shared state; what a call of a step leaves unchanged\<close>

lemma ctx_mutate [simp]: "ctx (mutate f w) = f (ctx w)"
  and clock_mutate [simp]: "clock (mutate f w) = clock w"
  and heapUsed_mutate [simp]: "heapUsed (mutate f w) = heapUsed w"
  and cpuUser_mutate [simp]: "cpuUser (mutate f w) = cpuUser w"
  and observed_mutate [simp]: "observed (mutate f w) = observed w @ [f (ctx w)]"
  by (simp_all add: mutate_def)

lemma ctx_sleep [simp]: "ctx (sleep ms w) = ctx w"
  and clock_sleep [simp]: "clock (sleep ms w) = clock w + ms"
  and heapUsed_sleep [simp]: "heapUsed (sleep ms w) = heapUsed w"
  and cpuUser_sleep [simp]: "cpuUser (sleep ms w) = cpuUser w"
  and observed_sleep [simp]: "observed (sleep ms w) = observed w"
  by (simp_all add: sleep_def)

lemma perform_all_Nil [simp]: "perform_all [] w = w"
  and perform_all_Cons [simp]: "perform_all (opn # ops) w = perform_all ops (perform opn w)"
  by (simp_all add: perform_all_def)

lemma metadata_setData [simp]: "metadata (setData k v c) = metadata c"
  and errors_setData [simp]: "errors (setData k v c) = errors c"
  by (simp_all add: setData_def)

lemma metadata_setStepOutput [simp]: "metadata (setStepOutput t n v c) = metadata c"
  and errors_setStepOutput [simp]: "errors (setStepOutput t n v c) = errors c"
  by (simp_all add: setStepOutput_def split: option.splits)

lemma metadata_perform [simp]: "metadata (ctx (perform opn w)) = metadata (ctx w)"
  and errors_perform [simp]: "errors (ctx (perform opn w)) = errors (ctx w)"
  by (cases opn; simp)+

lemma metadata_perform_all [simp]: "metadata (ctx (perform_all ops w)) = metadata (ctx w)"
  unfolding perform_all_def by (induction ops arbitrary: w) simp_all

lemma errors_perform_all [simp]: "errors (ctx (perform_all ops w)) = errors (ctx w)"
  unfolding perform_all_def by (induction ops arbitrary: w) simp_all

declare retry_loop.simps [simp del]

lemma invoke_frame:
  assumes "invoke s w = (r, s', w')"
  shows "metadata (ctx w') = metadata (ctx w)" "errors (ctx w') = errors (ctx w)"
    "s' = s\<lparr> calls := calls s + 1 \<rparr>"
  using assms by (auto simp: invoke_def Let_def)

lemma retry_loop_done: "\<not> k < maxRetries cfg \<Longrightarrow> retry_loop cfg k s w = (Inr (), s, w)"
  by (simp add: retry_loop.simps [of cfg k s w])

lemma retry_loop_success:
  "k < maxRetries cfg \<Longrightarrow> invoke s (sleep (delay (retryStrategy cfg) k) w) = (Inr v, s1, w1)
   \<Longrightarrow> retry_loop cfg k s w = (Inr (), s1, w1)"
  by (simp add: retry_loop.simps [of cfg k s w])

lemma retry_loop_exhausted:
  "k < maxRetries cfg \<Longrightarrow> invoke s (sleep (delay (retryStrategy cfg) k) w) = (Inl e, s1, w1)
   \<Longrightarrow> maxRetries cfg \<le> k + 1 \<Longrightarrow> retry_loop cfg k s w = (Inl e, s1, w1)"
  by (simp add: retry_loop.simps [of cfg k s w])

lemma retry_loop_again:
  "k < maxRetries cfg \<Longrightarrow> invoke s (sleep (delay (retryStrategy cfg) k) w) = (Inl e, s1, w1)
   \<Longrightarrow> \<not> maxRetries cfg \<le> k + 1 \<Longrightarrow> retry_loop cfg k s w = retry_loop cfg (k + 1) s1 w1"
  by (simp add: retry_loop.simps [of cfg k s w])

lemma retry_loop_frame:
  "retry_loop cfg k s w = (r, s', w') \<Longrightarrow>
     metadata (ctx w') = metadata (ctx w) \<and> errors (ctx w') = errors (ctx w)
     \<and> s' = s\<lparr> calls := calls s' \<rparr> \<and> calls s \<le> calls s'"
proof (induction cfg k s w arbitrary: r s' w' rule: retry_loop.induct)
  case (1 cfg retryCount s w)
  show ?case
  proof (cases "retryCount < maxRetries cfg")
    case False
    with "1.prems" show ?thesis by (simp add: retry_loop_done)
  next
    case True
    obtain r1 s1 w1 where inv: "invoke s (sleep (delay (retryStrategy cfg) retryCount) w) = (r1, s1, w1)"
      by (metis prod_cases3)
    note fr = invoke_frame [OF inv]
    show ?thesis
    proof (cases r1)
      case (Inr v)
      with True inv "1.prems" have "(r, s', w') = (Inr (), s1, w1)"
        by (simp add: retry_loop_success)
      with fr show ?thesis by simp
    next
      case (Inl e)
      show ?thesis
      proof (cases "maxRetries cfg \<le> retryCount + 1")
        case True
        with Inl \<open>retryCount < maxRetries cfg\<close> inv "1.prems" have "(r, s', w') = (Inl e, s1, w1)"
          by (simp add: retry_loop_exhausted)
        with fr show ?thesis by simp
      next
        case False
        with Inl \<open>retryCount < maxRetries cfg\<close> inv "1.prems"
        have rec: "retry_loop cfg (retryCount + 1) s1 w1 = (r, s', w')"
          by (simp add: retry_loop_again)
        have "metadata (ctx w') = metadata (ctx w1) \<and> errors (ctx w') = errors (ctx w1)
          \<and> s' = s1\<lparr> calls := calls s' \<rparr> \<and> calls s1 \<le> calls s'"
          using "1.IH" [OF \<open>retryCount < maxRetries cfg\<close> inv [symmetric] Inl refl False rec] .
        with fr show ?thesis by simp
      qed
    qed
  qed
qed


subsection \<open>The invariant of a run\<close>

lemma running_weaken: "running k w \<Longrightarrow> j \<le> k \<Longrightarrow> running j w"
  by (simp add: running_def)

lemma running_mutate:
  "running k w \<Longrightarrow> metadata (f (ctx w)) = metadata (ctx w) \<Longrightarrow> running k (mutate f w)"
  by (simp add: running_def counters_ok_def)

lemma running_sleep [simp]: "running k (sleep ms w) = running k w"
  by (simp add: running_def)

lemma running_perform: "running k w \<Longrightarrow> running k (perform opn w)"
  by (cases opn) (simp_all add: running_mutate)

lemma running_perform_all: "running k w \<Longrightarrow> running k (perform_all ops w)"
  unfolding perform_all_def by (induction ops arbitrary: w) (simp_all add: running_perform)

lemma running_invoke: "invoke s w = (r, s', w') \<Longrightarrow> running k w \<Longrightarrow> running k w'"
  by (auto simp: invoke_def Let_def running_perform_all)

lemma retry_loop_running:
  "retry_loop cfg j s w = (r, s', w') \<Longrightarrow> running k w \<Longrightarrow> running k w'"
proof (induction cfg j s w arbitrary: r s' w' rule: retry_loop.induct)
  case (1 cfg retryCount s w)
  show ?case
  proof (cases "retryCount < maxRetries cfg")
    case False
    with "1.prems" show ?thesis by (simp add: retry_loop_done)
  next
    case True
    obtain r1 s1 w1 where inv: "invoke s (sleep (delay (retryStrategy cfg) retryCount) w) = (r1, s1, w1)"
      by (metis prod_cases3)
    from running_invoke [OF inv] "1.prems"(2) have run1: "running k w1" by simp
    show ?thesis
    proof (cases r1)
      case (Inr v)
      with True inv "1.prems" have "(r, s', w') = (Inr (), s1, w1)"
        by (simp add: retry_loop_success)
      with run1 show ?thesis by simp
    next
      case (Inl e)
      show ?thesis
      proof (cases "maxRetries cfg \<le> retryCount + 1")
        case True
        with Inl \<open>retryCount < maxRetries cfg\<close> inv "1.prems" have "(r, s', w') = (Inl e, s1, w1)"
          by (simp add: retry_loop_exhausted)
        with run1 show ?thesis by simp
      next
        case False
        with Inl \<open>retryCount < maxRetries cfg\<close> inv "1.prems"
        have rec: "retry_loop cfg (retryCount + 1) s1 w1 = (r, s', w')"
          by (simp add: retry_loop_again)
        show ?thesis
          using "1.IH" [OF \<open>retryCount < maxRetries cfg\<close> inv [symmetric] Inl refl False rec run1] .
      qed
    qed
  qed
qed

lemma running_executeFallback: "running k w \<Longrightarrow> running k (executeFallback info s w)"
  by (simp add: executeFallback_def running_mutate)

lemma running_ErrorHandler:
  "ErrorHandler_handleError cfg e s w = (r, s', w') \<Longrightarrow> running k w \<Longrightarrow> running k w'"
  by (auto simp: ErrorHandler_handleError_def Let_def executeRetry_def running_executeFallback
      split: if_splits dest: retry_loop_running)

lemma running_Step_handleError:
  "running (Suc k) w \<Longrightarrow> Step_handleError e s w = (s', w') \<Longrightarrow> running k w'"
  by (auto simp: Step_handleError_def running_def counters_ok_def inc_failedSteps_def push_error_def)

lemma running_executeStep:
  assumes "running (Suc k) w" and "executeStep cfg s w = (r, s', w')"
  shows "running k w'"
proof -
  define s1 where "s1 = s\<lparr> status := RUNNING, stepStartTime := Some (clock w) \<rparr>"
  define so where "so = \<lparr> so_status = RUNNING, so_startTime = Some (clock w), so_endTime = None,
                         so_output = VNull, so_error = None, so_duration = None \<rparr>"
  define w1 where "w1 = mutate (\<lambda>c. c\<lparr> stepOutputs := map_set (name s1) so (stepOutputs c) \<rparr>) w"
  have r1: "running (Suc k) w1" unfolding w1_def by (rule running_mutate [OF assms(1)]) simp
  obtain res s2 w2 where inv: "invoke s1 w1 = (res, s2, w2)" by (metis prod_cases3)
  from running_invoke [OF inv r1] have r2: "running (Suc k) w2" .
  show ?thesis
  proof (cases res)
    case (Inr v)
    with assms(2) inv have "w' = mutate inc_completedSteps
        (mutate (\<lambda>c. c\<lparr> stepOutputs := map_set (name s2)
            (so\<lparr> so_status := COMPLETED, so_endTime := Some (clock w2), so_output := v,
                  so_duration := Some (int (clock w2) - int (clock w)) \<rparr>) (stepOutputs c) \<rparr>) w2)"
      by (simp add: executeStep_def Let_def s1_def [symmetric] so_def [symmetric] w1_def [symmetric])
    with r2 show ?thesis
      by (simp add: running_def counters_ok_def inc_completedSteps_def)
  next
    case (Inl err)
    obtain s3 w3 where he: "Step_handleError err s2 w2 = (s3, w3)" by (metis surj_pair)
    from running_Step_handleError [OF r2 he] have r3: "running k w3" .
    define w4 where "w4 = mutate (\<lambda>c. c\<lparr> stepOutputs := map_set (name s3)
        (so\<lparr> so_status := FAILED, so_endTime := stepEndTime s3, so_error := error s3,
              so_duration := Some (case stepEndTime s3 of Some t \<Rightarrow> int t - int (clock w) | None \<Rightarrow> 0) \<rparr>)
        (stepOutputs c) \<rparr>) w3"
    have r4: "running k w4" unfolding w4_def by (rule running_mutate [OF r3]) simp
    from assms(2) inv Inl he have "ErrorHandler_handleError cfg err s3 w4 = (r, s', w')"
      by (simp add: executeStep_def Let_def s1_def [symmetric] so_def [symmetric] w1_def [symmetric] w4_def)
    from running_ErrorHandler [OF this r4] show ?thesis .
  qed
qed

lemma running_run_steps:
  "running (length ss) w \<Longrightarrow> run_steps cfg ss w = (r, ss', w') \<Longrightarrow> running 0 w'"
proof (induction ss arbitrary: w r ss' w')
  case Nil
  then show ?case by simp
next
  case (Cons s ss)
  obtain r1 s1 w1 where ex: "executeStep cfg s w = (r1, s1, w1)" by (metis prod_cases3)
  from Cons.prems(1) have "running (Suc (length ss)) w" by simp
  from running_executeStep [OF this ex] have r1: "running (length ss) w1" .
  show ?case
  proof (cases r1)
    case (Inl e)
    with Cons.prems(2) ex have "w' = w1" by simp
    with r1 show ?thesis by (simp add: running_weaken)
  next
    case (Inr u)
    show ?thesis
    proof (cases "status s1 = FAILED \<and> \<not> fallbackEnabled cfg")
      case True
      with Inr Cons.prems(2) ex have "w' = w1" by simp
      with r1 show ?thesis by (simp add: running_weaken)
    next
      case False
      obtain r2 ss2 w2 where rs: "run_steps cfg ss w1 = (r2, ss2, w2)" by (metis prod_cases3)
      with False Inr Cons.prems(2) ex have "w' = w2" by auto
      with Cons.IH [OF r1 rs] show ?thesis by simp
    qed
  qed
qed

subsection \<open>Assembled orchestrators\<close>

lemma assemble_snoc:
  "assemble cfg uuid now heap cpu (ss @ [s]) = addStep s (assemble cfg uuid now heap cpu ss)"
  by (simp add: assemble_def)

lemma assemble_facts:
  "steps (assemble cfg uuid now heap cpu ss) = ss
   \<and> config (assemble cfg uuid now heap cpu ss) = cfg
   \<and> clock (state (assemble cfg uuid now heap cpu ss)) = now
   \<and> metadata (ctx (state (assemble cfg uuid now heap cpu ss))) =
        \<lparr> workflowId = (if cfg_workflowId cfg = [] then uuid else cfg_workflowId cfg),
          startTime = None, endTime = None, totalSteps = length ss,
          completedSteps = 0, failedSteps = 0 \<rparr>
   \<and> errors (ctx (state (assemble cfg uuid now heap cpu ss))) = []
   \<and> list_all (\<lambda>c. counters_ok (metadata c) \<and> endTime (metadata c) = None)
        (observed (state (assemble cfg uuid now heap cpu ss)))"
proof (induction ss rule: rev_induct)
  case Nil
  show ?case by (simp add: assemble_def new_orchestrator_def new_context_def counters_ok_def)
next
  case (snoc s ss)
  then show ?case
    by (simp add: assemble_snoc addStep_def set_totalSteps_def counters_ok_def)
qed

lemma running_assembled:
  "running (length ss)
     (mutate (set_startTime t) (state (assemble cfg uuid now heap cpu ss)))"
  using assemble_facts [of cfg uuid now heap cpu ss]
  by (simp add: running_def set_startTime_def counters_ok_def)

lemma generateExecutionReport_defined:
  "startTime (metadata (ctx (state orc))) \<noteq> None \<Longrightarrow> endTime (metadata (ctx (state orc))) \<noteq> None
   \<Longrightarrow> \<exists>rep. generateExecutionReport orc = Inr rep"
  by (auto simp: generateExecutionReport_def Let_def)

lemma execute_final_state:
  assumes "running (length (steps orc)) (mutate (set_startTime (clock (state orc))) (state orc))"
  shows "\<exists>w. running 0 w \<and> state (snd (execute orc)) = mutate (set_endTime (clock w)) w"
proof -
  define w0 where "w0 = mutate (set_startTime (clock (state orc))) (state orc)"
  define orc0 where "orc0 = orc\<lparr> state := w0 \<rparr>"
  have r0: "running (length (steps orc)) w0" using assms by (simp add: w0_def)
  show ?thesis
  proof (cases "validateWorkflow (steps orc)")
    case (Inl e)
    then have "state (snd (execute orc)) = mutate (set_endTime (clock w0)) w0"
      by (simp add: execute_def Let_def execute_catch_def w0_def)
    with r0 show ?thesis using running_weaken by blast
  next
    case (Inr u)
    obtain r ss w1 where rs: "run_steps (errorHandling (config orc)) (steps orc) w0 = (r, ss, w1)"
      by (metis prod_cases3)
    from running_run_steps [OF r0 rs] have r1: "running 0 w1" .
    show ?thesis
    proof (cases r)
      case (Inl e)
      with Inr rs have "state (snd (execute orc)) = mutate (set_endTime (clock w1)) w1"
        by (simp add: execute_def Let_def execute_catch_def w0_def)
      with r1 show ?thesis by blast
    next
      case Inr2: (Inr u')
      define orc1 where "orc1 = orc\<lparr> steps := ss, state := mutate (set_endTime (clock w1)) w1 \<rparr>"
      from r1 have "startTime (metadata (ctx (state orc1))) \<noteq> None"
        "endTime (metadata (ctx (state orc1))) \<noteq> None"
        by (simp_all add: orc1_def running_def set_endTime_def)
      from generateExecutionReport_defined [OF this] obtain rep
        where "generateExecutionReport orc1 = Inr rep" by blast
      with Inr Inr2 rs have "state (snd (execute orc)) = mutate (set_endTime (clock w1)) w1"
        by (simp add: execute_def Let_def w0_def orc1_def)
      with r1 show ?thesis by blast
    qed
  qed
qed

subsection \<open>One step\<close>

lemma invoke_eq:
  "invoke s w = (result (body s (calls s) (ctx w)), s\<lparr> calls := calls s + 1 \<rparr>,
     perform_all (writes (body s (calls s) (ctx w))) (sleep (elapsed (body s (calls s) (ctx w))) w))"
  by (simp add: invoke_def Let_def)

lemma executeStep_resolved:
  assumes "\<And>c. \<exists>v. result (body s (calls s) c) = Inr v"
  shows "\<exists>s' w'. executeStep cfg s w = (Inr (), s', w') \<and> status s' = COMPLETED
    \<and> calls s' = calls s + 1 \<and> name s' = name s \<and> body s' = body s
    \<and> metadata (ctx w') = (metadata (ctx w))\<lparr> completedSteps := completedSteps (metadata (ctx w)) + 1 \<rparr>
    \<and> errors (ctx w') = errors (ctx w)"
proof -
  define s1 where "s1 = s\<lparr> status := RUNNING, stepStartTime := Some (clock w) \<rparr>"
  define so where "so = \<lparr> so_status = RUNNING, so_startTime = Some (clock w), so_endTime = None,
                         so_output = VNull, so_error = None, so_duration = None \<rparr>"
  define w1 where "w1 = mutate (\<lambda>c. c\<lparr> stepOutputs := map_set (name s1) so (stepOutputs c) \<rparr>) w"
  obtain res s2 w2 where inv: "invoke s1 w1 = (res, s2, w2)" by (metis prod_cases3)
  from assms [of "ctx w1"] obtain v where "result (body s1 (calls s1) (ctx w1)) = Inr v"
    by (auto simp: s1_def)
  with inv have res: "res = Inr v" by (simp add: invoke_eq)
  note fr = invoke_frame [OF inv]
  have m1: "metadata (ctx w1) = metadata (ctx w)" "errors (ctx w1) = errors (ctx w)"
    by (simp_all add: w1_def)
  show ?thesis
    using inv res fr m1
    by (simp add: executeStep_def Let_def s1_def [symmetric] so_def [symmetric] w1_def [symmetric]
        inc_completedSteps_def)
      (simp add: s1_def)
qed

lemma executeStep_frame:
  assumes "executeStep cfg s w = (r, s', w')"
  shows "name s' = name s \<and> body s' = body s \<and> calls s < calls s'
    \<and> ((r = Inr () \<and> status s' = COMPLETED \<and> errors (ctx w') = errors (ctx w)
         \<and> metadata (ctx w') = (metadata (ctx w))\<lparr> completedSteps := completedSteps (metadata (ctx w)) + 1 \<rparr>)
       \<or> (status s' = FAILED \<and> (\<exists>e. errors (ctx w') = errors (ctx w) @ [e] \<and> error s' = Some e)
         \<and> metadata (ctx w') = (metadata (ctx w))\<lparr> failedSteps := failedSteps (metadata (ctx w)) + 1 \<rparr>))"
proof -
  define s1 where "s1 = s\<lparr> status := RUNNING, stepStartTime := Some (clock w) \<rparr>"
  define so where "so = \<lparr> so_status = RUNNING, so_startTime = Some (clock w), so_endTime = None,
                         so_output = VNull, so_error = None, so_duration = None \<rparr>"
  define w1 where "w1 = mutate (\<lambda>c. c\<lparr> stepOutputs := map_set (name s1) so (stepOutputs c) \<rparr>) w"
  obtain res s2 w2 where inv: "invoke s1 w1 = (res, s2, w2)" by (metis prod_cases3)
  note fr = invoke_frame [OF inv]
  have m1: "metadata (ctx w1) = metadata (ctx w)" "errors (ctx w1) = errors (ctx w)"
    by (simp_all add: w1_def)
  show ?thesis
  proof (cases res)
    case (Inr v)
    with assms inv fr m1 show ?thesis
      by (simp add: executeStep_def Let_def s1_def [symmetric] so_def [symmetric] w1_def [symmetric]
          inc_completedSteps_def)
        (auto simp: s1_def inc_completedSteps_def)
  next
    case (Inl err)
    define s3 where "s3 = s2\<lparr> error := Some err, status := FAILED, stepEndTime := Some (clock w2) \<rparr>"
    define w3 where "w3 = mutate inc_failedSteps (mutate (push_error err) w2)"
    define w4 where "w4 = mutate (\<lambda>c. c\<lparr> stepOutputs := map_set (name s3)
        (so\<lparr> so_status := FAILED, so_endTime := stepEndTime s3, so_error := error s3,
              so_duration := Some (case stepEndTime s3 of Some t \<Rightarrow> int t - int (clock w) | None \<Rightarrow> 0) \<rparr>)
        (stepOutputs c) \<rparr>) w3"
    from assms inv Inl have eh: "ErrorHandler_handleError cfg err s3 w4 = (r, s', w')"
      by (simp add: executeStep_def Let_def s1_def [symmetric] so_def [symmetric] w1_def [symmetric]
          Step_handleError_def s3_def w3_def w4_def)
    have m4: "metadata (ctx w4) = (metadata (ctx w))\<lparr> failedSteps := failedSteps (metadata (ctx w)) + 1 \<rparr>"
      "errors (ctx w4) = errors (ctx w) @ [err]"
      using fr m1 by (simp_all add: w4_def w3_def inc_failedSteps_def push_error_def)
    have "metadata (ctx w') = metadata (ctx w4) \<and> errors (ctx w') = errors (ctx w4)
      \<and> status s' = status s3 \<and> name s' = name s3 \<and> error s' = error s3 \<and> body s' = body s3
      \<and> calls s3 \<le> calls s'"
    proof (cases "shouldRetry cfg (classifyError err)")
      case True
      with eh have "retry_loop cfg 0 s3 w4 = (r, s', w')"
        by (simp add: ErrorHandler_handleError_def executeRetry_def)
      from retry_loop_frame [OF this] show ?thesis by (metis step.select_convs step.surjective step.update_convs(9))
    next
      case False
      with eh show ?thesis
        by (auto simp: ErrorHandler_handleError_def executeFallback_def Let_def split: if_splits)
    qed
    with m4 fr show ?thesis by (simp add: s3_def s1_def)
  qed
qed


lemma executeStep_rejected:
  assumes first: "\<And>c. result (body s (calls s) c) = Inl err"
    and ex: "executeStep cfg s w = (r, s', w')"
  shows "status s' = FAILED \<and> error s' = Some err \<and> calls s < calls s'
    \<and> metadata (ctx w') = (metadata (ctx w))\<lparr> failedSteps := failedSteps (metadata (ctx w)) + 1 \<rparr>
    \<and> errors (ctx w') = errors (ctx w) @ [err]"
proof -
  define s1 where "s1 = s\<lparr> status := RUNNING, stepStartTime := Some (clock w) \<rparr>"
  define so where "so = \<lparr> so_status = RUNNING, so_startTime = Some (clock w), so_endTime = None,
                         so_output = VNull, so_error = None, so_duration = None \<rparr>"
  define w1 where "w1 = mutate (\<lambda>c. c\<lparr> stepOutputs := map_set (name s1) so (stepOutputs c) \<rparr>) w"
  obtain res s2 w2 where inv: "invoke s1 w1 = (res, s2, w2)" by (metis prod_cases3)
  from first [of "ctx w1"] inv have res: "res = Inl err" by (simp add: invoke_eq s1_def)
  note fr = invoke_frame [OF inv]
  have m1: "metadata (ctx w1) = metadata (ctx w)" "errors (ctx w1) = errors (ctx w)"
    by (simp_all add: w1_def)
  define s3 where "s3 = s2\<lparr> error := Some err, status := FAILED, stepEndTime := Some (clock w2) \<rparr>"
  define w3 where "w3 = mutate inc_failedSteps (mutate (push_error err) w2)"
  define w4 where "w4 = mutate (\<lambda>c. c\<lparr> stepOutputs := map_set (name s3)
      (so\<lparr> so_status := FAILED, so_endTime := stepEndTime s3, so_error := error s3,
            so_duration := Some (case stepEndTime s3 of Some t \<Rightarrow> int t - int (clock w) | None \<Rightarrow> 0) \<rparr>)
      (stepOutputs c) \<rparr>) w3"
  from ex inv res have eh: "ErrorHandler_handleError cfg err s3 w4 = (r, s', w')"
    by (simp add: executeStep_def Let_def s1_def [symmetric] so_def [symmetric] w1_def [symmetric]
        Step_handleError_def s3_def w3_def w4_def)
  have m4: "metadata (ctx w4) = (metadata (ctx w))\<lparr> failedSteps := failedSteps (metadata (ctx w)) + 1 \<rparr>"
    "errors (ctx w4) = errors (ctx w) @ [err]"
    using fr m1 by (simp_all add: w4_def w3_def inc_failedSteps_def push_error_def)
  have "metadata (ctx w') = metadata (ctx w4) \<and> errors (ctx w') = errors (ctx w4)
    \<and> status s' = status s3 \<and> error s' = error s3 \<and> calls s3 \<le> calls s'"
  proof (cases "shouldRetry cfg (classifyError err)")
    case True
    with eh have "retry_loop cfg 0 s3 w4 = (r, s', w')"
      by (simp add: ErrorHandler_handleError_def executeRetry_def)
    from retry_loop_frame [OF this] show ?thesis
      by (metis step.select_convs step.surjective step.update_convs(9))
  next
    case False
    with eh show ?thesis
      by (auto simp: ErrorHandler_handleError_def executeFallback_def Let_def split: if_splits)
  qed
  with m4 fr show ?thesis by (simp add: s3_def s1_def)
qed

lemma executeStep_retry_success:
  assumes first: "\<And>c. result (body s (calls s) c) = Inl err"
    and retry: "shouldRetry cfg (classifyError err)"
    and second: "\<And>c. \<exists>v. result (body s (Suc (calls s)) c) = Inr v"
  shows "\<exists>s' w'. executeStep cfg s w = (Inr (), s', w') \<and> status s' = FAILED
    \<and> error s' = Some err \<and> outputValue s' = outputValue s \<and> calls s' = calls s + 2
    \<and> name s' = name s
    \<and> metadata (ctx w') = (metadata (ctx w))\<lparr> failedSteps := failedSteps (metadata (ctx w)) + 1 \<rparr>
    \<and> errors (ctx w') = errors (ctx w) @ [err]"
proof -
  define s1 where "s1 = s\<lparr> status := RUNNING, stepStartTime := Some (clock w) \<rparr>"
  define so where "so = \<lparr> so_status = RUNNING, so_startTime = Some (clock w), so_endTime = None,
                         so_output = VNull, so_error = None, so_duration = None \<rparr>"
  define w1 where "w1 = mutate (\<lambda>c. c\<lparr> stepOutputs := map_set (name s1) so (stepOutputs c) \<rparr>) w"
  obtain res s2 w2 where inv: "invoke s1 w1 = (res, s2, w2)" by (metis prod_cases3)
  from first [of "ctx w1"] inv have res: "res = Inl err" by (simp add: invoke_eq s1_def)
  note fr = invoke_frame [OF inv]
  have m1: "metadata (ctx w1) = metadata (ctx w)" "errors (ctx w1) = errors (ctx w)"
    by (simp_all add: w1_def)
  define s3 where "s3 = s2\<lparr> error := Some err, status := FAILED, stepEndTime := Some (clock w2) \<rparr>"
  define w3 where "w3 = mutate inc_failedSteps (mutate (push_error err) w2)"
  define w4 where "w4 = mutate (\<lambda>c. c\<lparr> stepOutputs := map_set (name s3)
      (so\<lparr> so_status := FAILED, so_endTime := stepEndTime s3, so_error := error s3,
            so_duration := Some (case stepEndTime s3 of Some t \<Rightarrow> int t - int (clock w) | None \<Rightarrow> 0) \<rparr>)
      (stepOutputs c) \<rparr>) w3"
  have ex: "executeStep cfg s w = retry_loop cfg 0 s3 w4"
    using inv res retry
    by (simp add: executeStep_def Let_def s1_def [symmetric] so_def [symmetric] w1_def [symmetric]
        Step_handleError_def s3_def w3_def w4_def ErrorHandler_handleError_def executeRetry_def)
  have m4: "metadata (ctx w4) = (metadata (ctx w))\<lparr> failedSteps := failedSteps (metadata (ctx w)) + 1 \<rparr>"
    "errors (ctx w4) = errors (ctx w) @ [err]"
    using fr m1 by (simp_all add: w4_def w3_def inc_failedSteps_def push_error_def)
  have c3: "calls s3 = Suc (calls s)" "body s3 = body s" using fr by (simp_all add: s3_def s1_def)
  obtain res5 s5 w5 where inv5: "invoke s3 (sleep (delay (retryStrategy cfg) 0) w4) = (res5, s5, w5)"
    by (metis prod_cases3)
  from second [of "ctx w4"] c3 inv5 obtain v where res5: "res5 = Inr v" by (auto simp: invoke_eq)
  note fr5 = invoke_frame [OF inv5]
  from retry have "0 < maxRetries cfg" by (simp add: shouldRetry_def)
  from retry_loop_success [OF this inv5 [unfolded res5]] ex
  have "executeStep cfg s w = (Inr (), s5, w5)" by simp
  with fr5 m4 c3 fr show ?thesis by (simp add: s3_def s1_def)
qed

subsection \<open>The loop\<close>

lemma run_steps_frame:
  "run_steps cfg ss w = (r, ss', w') \<Longrightarrow>
     totalSteps (metadata (ctx w')) = totalSteps (metadata (ctx w))
     \<and> startTime (metadata (ctx w')) = startTime (metadata (ctx w))
     \<and> endTime (metadata (ctx w')) = endTime (metadata (ctx w))
     \<and> workflowId (metadata (ctx w')) = workflowId (metadata (ctx w))
     \<and> map name ss' = map name ss \<and> map body ss' = map body ss"
proof (induction ss arbitrary: w r ss' w')
  case Nil
  then show ?case by simp
next
  case (Cons s ss)
  obtain r1 s1 w1 where ex: "executeStep cfg s w = (r1, s1, w1)" by (metis prod_cases3)
  from executeStep_frame [OF ex]
  have fr: "totalSteps (metadata (ctx w1)) = totalSteps (metadata (ctx w))
     \<and> startTime (metadata (ctx w1)) = startTime (metadata (ctx w))
     \<and> endTime (metadata (ctx w1)) = endTime (metadata (ctx w))
     \<and> workflowId (metadata (ctx w1)) = workflowId (metadata (ctx w))
     \<and> name s1 = name s \<and> body s1 = body s" by auto
  show ?case
  proof (cases r1)
    case (Inl e)
    with Cons.prems ex fr show ?thesis by auto
  next
    case (Inr u)
    show ?thesis
    proof (cases "status s1 = FAILED \<and> \<not> fallbackEnabled cfg")
      case True
      with Inr Cons.prems ex fr show ?thesis by auto
    next
      case False
      obtain r2 ss2 w2 where rs: "run_steps cfg ss w1 = (r2, ss2, w2)" by (metis prod_cases3)
      with False Inr Cons.prems ex have "w' = w2" "ss' = s1 # ss2" by auto
      with Cons.IH [OF rs] fr show ?thesis by simp
    qed
  qed
qed

lemma run_steps_all_resolved:
  assumes "\<And>s k c. s \<in> set ss \<Longrightarrow> \<exists>v. result (body s k c) = Inr v"
  shows "\<exists>ss' w'. run_steps cfg ss w = (Inr (), ss', w')
    \<and> map status ss' = replicate (length ss) COMPLETED
    \<and> map calls ss' = map (\<lambda>s. calls s + 1) ss
    \<and> errors (ctx w') = errors (ctx w)
    \<and> metadata (ctx w') =
        (metadata (ctx w))\<lparr> completedSteps := completedSteps (metadata (ctx w)) + length ss \<rparr>"
  using assms
proof (induction ss arbitrary: w)
  case Nil
  show ?case by simp
next
  case (Cons s ss)
  have "\<And>c. \<exists>v. result (body s (calls s) c) = Inr v" using Cons.prems by simp
  from executeStep_resolved [OF this, of cfg w] obtain s1 w1
    where ex: "executeStep cfg s w = (Inr (), s1, w1)" "status s1 = COMPLETED"
      "calls s1 = calls s + 1"
      "metadata (ctx w1) = (metadata (ctx w))\<lparr> completedSteps := completedSteps (metadata (ctx w)) + 1 \<rparr>"
      "errors (ctx w1) = errors (ctx w)"
    by blast
  have "\<And>s k c. s \<in> set ss \<Longrightarrow> \<exists>v. result (body s k c) = Inr v" using Cons.prems by simp
  from Cons.IH [OF this, of w1] obtain ss2 w2
    where rs: "run_steps cfg ss w1 = (Inr (), ss2, w2)"
      "map status ss2 = replicate (length ss) COMPLETED"
      "map calls ss2 = map (\<lambda>s. calls s + 1) ss"
      "errors (ctx w2) = errors (ctx w1)"
      "metadata (ctx w2) =
        (metadata (ctx w1))\<lparr> completedSteps := completedSteps (metadata (ctx w1)) + length ss \<rparr>"
    by blast
  from ex rs show ?case by simp
qed

lemma run_steps_all_completed:
  "run_steps cfg ss w = (r, ss', w') \<Longrightarrow> \<forall>s \<in> set ss'. status s = COMPLETED \<Longrightarrow>
     length ss' = length ss
     \<and> errors (ctx w') = errors (ctx w)
     \<and> metadata (ctx w') =
        (metadata (ctx w))\<lparr> completedSteps := completedSteps (metadata (ctx w)) + length ss \<rparr>"
proof (induction ss arbitrary: w r ss' w')
  case Nil
  then show ?case by auto
next
  case (Cons s ss)
  obtain r1 s1 w1 where ex: "executeStep cfg s w = (r1, s1, w1)" by (metis prod_cases3)
  have hd: "\<exists>rest. ss' = s1 # rest"
    using Cons.prems(1) ex by (auto split: sum.splits if_splits prod.splits)
  with Cons.prems(2) have st: "status s1 = COMPLETED" by auto
  with executeStep_frame [OF ex]
  have fr: "r1 = Inr ()" "errors (ctx w1) = errors (ctx w)"
    "metadata (ctx w1) = (metadata (ctx w))\<lparr> completedSteps := completedSteps (metadata (ctx w)) + 1 \<rparr>"
    by auto
  obtain r2 ss2 w2 where rs: "run_steps cfg ss w1 = (r2, ss2, w2)" by (metis prod_cases3)
  with Cons.prems(1) ex fr(1) st have eq: "ss' = s1 # ss2" "w' = w2" by auto
  with Cons.prems(2) have "\<forall>s \<in> set ss2. status s = COMPLETED" by simp
  from Cons.IH [OF rs this] fr eq show ?case by simp
qed

subsection \<open>The run as a whole\<close>

lemma execute_returns:
  assumes "execute orc = (Inr rep, orc')"
  shows "\<exists>ss w1. run_steps (errorHandling (config orc)) (steps orc)
            (mutate (set_startTime (clock (state orc))) (state orc)) = (Inr (), ss, w1)
          \<and> orc' = orc\<lparr> steps := ss, state := mutate (set_endTime (clock w1)) w1 \<rparr>
          \<and> generateExecutionReport orc' = Inr rep \<and> 3 \<le> length (steps orc)"
proof -
  define w0 where "w0 = mutate (set_startTime (clock (state orc))) (state orc)"
  obtain r ss w1 where rs: "run_steps (errorHandling (config orc)) (steps orc) w0 = (r, ss, w1)"
    by (metis prod_cases3)
  from assms have v: "validateWorkflow (steps orc) = Inr ()"
    by (cases "validateWorkflow (steps orc)") (simp_all add: execute_def Let_def execute_catch_def)
  then have len: "3 \<le> length (steps orc)"
    by (simp add: validateWorkflow_def split: if_splits)
  from assms v rs have r: "r = Inr ()"
    by (cases r) (simp_all add: execute_def Let_def execute_catch_def w0_def)
  define orc1 where "orc1 = orc\<lparr> steps := ss, state := mutate (set_endTime (clock w1)) w1 \<rparr>"
  from assms v rs r have "generateExecutionReport orc1 = Inr rep \<and> orc' = orc1"
    by (cases "generateExecutionReport orc1")
      (simp_all add: execute_def Let_def execute_catch_def w0_def orc1_def)
  with rs r len show ?thesis by (simp add: w0_def orc1_def)
qed

lemma execute_throws:
  assumes "validateWorkflow (steps orc) = Inr ()"
    and "run_steps (errorHandling (config orc)) (steps orc)
            (mutate (set_startTime (clock (state orc))) (state orc)) = (Inl e, ss, w1)"
  shows "execute orc =
    (Inl (if instanceof_WorkflowError e then e
          else WorkflowError (''Unexpected workflow error: '' @ message e) ''WORKFLOW'' ''WORKFLOW_ERROR''),
     orc\<lparr> steps := ss, state := mutate (set_endTime (clock w1)) w1 \<rparr>)"
  using assms by (simp add: execute_def Let_def execute_catch_def)

lemma execute_completes:
  assumes "validateWorkflow (steps orc) = Inr ()"
    and "run_steps (errorHandling (config orc)) (steps orc)
            (mutate (set_startTime (clock (state orc))) (state orc)) = (Inr (), ss, w1)"
  shows "\<exists>rep. execute orc = (Inr rep, orc\<lparr> steps := ss, state := mutate (set_endTime (clock w1)) w1 \<rparr>)
    \<and> generateExecutionReport (orc\<lparr> steps := ss, state := mutate (set_endTime (clock w1)) w1 \<rparr>) = Inr rep"
proof -
  define orc1 where "orc1 = orc\<lparr> steps := ss, state := mutate (set_endTime (clock w1)) w1 \<rparr>"
  from run_steps_frame [OF assms(2)]
  have "startTime (metadata (ctx (state orc1))) \<noteq> None" "endTime (metadata (ctx (state orc1))) \<noteq> None"
    by (simp_all add: orc1_def set_endTime_def set_startTime_def)
  from generateExecutionReport_defined [OF this] obtain rep
    where "generateExecutionReport orc1 = Inr rep" by blast
  with assms show ?thesis by (simp add: execute_def Let_def orc1_def)
qed

lemma report_of_context:
  assumes "generateExecutionReport orc = Inr rep"
  shows "rep_status rep = (if failedSteps (metadata (ctx (state orc))) = 0 then REPORT_COMPLETED else REPORT_FAILED)"
    "sum_totalSteps (rep_summary rep) = totalSteps (metadata (ctx (state orc)))"
    "sum_completedSteps (rep_summary rep) = completedSteps (metadata (ctx (state orc)))"
    "sum_failedSteps (rep_summary rep) = failedSteps (metadata (ctx (state orc)))"
    "successRate (rep_summary rep) =
       times100 (js_div (real (completedSteps (metadata (ctx (state orc)))))
                        (real (totalSteps (metadata (ctx (state orc))))))"
  using assms by (auto simp: generateExecutionReport_def Let_def split: option.splits)

lemma execute_all_resolved:
  assumes res: "\<And>s k c. s \<in> set (steps orc) \<Longrightarrow> \<exists>v. result (body s k c) = Inr v"
    and len: "3 \<le> length (steps orc)"
  shows "\<exists>rep orc'. execute orc = (Inr rep, orc') \<and> generateExecutionReport orc' = Inr rep
     \<and> map body (steps orc') = map body (steps orc)
     \<and> map status (steps orc') = replicate (length (steps orc)) COMPLETED
     \<and> completedSteps (metadata (ctx (state orc'))) =
         completedSteps (metadata (ctx (state orc))) + length (steps orc)
     \<and> failedSteps (metadata (ctx (state orc'))) = failedSteps (metadata (ctx (state orc)))
     \<and> totalSteps (metadata (ctx (state orc'))) = totalSteps (metadata (ctx (state orc)))
     \<and> endTime (metadata (ctx (state orc'))) \<noteq> None
     \<and> ctx (state orc') = last (observed (state orc'))"
proof -
  define w0 where "w0 = mutate (set_startTime (clock (state orc))) (state orc)"
  from run_steps_all_resolved [where ss = "steps orc" and cfg = "errorHandling (config orc)"
      and w = w0, OF res]
  obtain ss w1 where rs: "run_steps (errorHandling (config orc)) (steps orc) w0 = (Inr (), ss, w1)"
    and st: "map status ss = replicate (length (steps orc)) COMPLETED"
    and m1: "metadata (ctx w1) =
        (metadata (ctx w0))\<lparr> completedSteps := completedSteps (metadata (ctx w0)) + length (steps orc) \<rparr>"
    by blast
  from run_steps_frame [OF rs] have bd: "map body ss = map body (steps orc)" by simp
  have v: "validateWorkflow (steps orc) = Inr ()" using len by (auto simp: validateWorkflow_def)
  define orc1 where "orc1 = orc\<lparr> steps := ss, state := mutate (set_endTime (clock w1)) w1 \<rparr>"
  from execute_completes [OF v rs [unfolded w0_def]] obtain rep
    where ex: "execute orc = (Inr rep, orc1)" and rep: "generateExecutionReport orc1 = Inr rep"
    by (auto simp: orc1_def)
  have "map body (steps orc1) = map body (steps orc)"
    "map status (steps orc1) = replicate (length (steps orc)) COMPLETED"
    "completedSteps (metadata (ctx (state orc1))) =
         completedSteps (metadata (ctx (state orc))) + length (steps orc)"
    "failedSteps (metadata (ctx (state orc1))) = failedSteps (metadata (ctx (state orc)))"
    "totalSteps (metadata (ctx (state orc1))) = totalSteps (metadata (ctx (state orc)))"
    "endTime (metadata (ctx (state orc1))) \<noteq> None"
    "ctx (state orc1) = last (observed (state orc1))"
    using bd st m1 by (simp_all add: orc1_def w0_def set_endTime_def set_startTime_def)
  with ex rep show ?thesis by blast
qed

subsection \<open>Projections of the context; evaluating the example pipelines\<close>

lemma metadata_push_error [simp]: "metadata (push_error e c) = metadata c"
  and metadata_inc_failedSteps [simp]:
    "metadata (inc_failedSteps c) = (metadata c)\<lparr> failedSteps := failedSteps (metadata c) + 1 \<rparr>"
  and metadata_inc_completedSteps [simp]:
    "metadata (inc_completedSteps c) = (metadata c)\<lparr> completedSteps := completedSteps (metadata c) + 1 \<rparr>"
  and metadata_set_totalSteps [simp]:
    "metadata (set_totalSteps n c) = (metadata c)\<lparr> totalSteps := n \<rparr>"
  and metadata_set_startTime [simp]:
    "metadata (set_startTime t c) = (metadata c)\<lparr> startTime := Some t \<rparr>"
  and metadata_set_endTime [simp]:
    "metadata (set_endTime t c) = (metadata c)\<lparr> endTime := Some t \<rparr>"
  by (simp_all add: push_error_def inc_failedSteps_def inc_completedSteps_def set_totalSteps_def
      set_startTime_def set_endTime_def)

lemma data_setData [simp]: "data (setData k v c) = map_set k v (data c)"
  and data_setStepOutput [simp]: "data (setStepOutput t nm v c) = data c"
  and data_push_error [simp]: "data (push_error e c) = data c"
  and data_inc_failedSteps [simp]: "data (inc_failedSteps c) = data c"
  and data_inc_completedSteps [simp]: "data (inc_completedSteps c) = data c"
  and data_set_totalSteps [simp]: "data (set_totalSteps num c) = data c"
  and data_set_startTime [simp]: "data (set_startTime t c) = data c"
  and data_set_endTime [simp]: "data (set_endTime t c) = data c"
  by (simp_all add: setData_def setStepOutput_def push_error_def inc_failedSteps_def
      inc_completedSteps_def set_totalSteps_def set_startTime_def set_endTime_def
      split: option.splits)

lemma errors_push_error [simp]: "errors (push_error e c) = errors c @ [e]"
  and errors_inc_failedSteps [simp]: "errors (inc_failedSteps c) = errors c"
  and errors_inc_completedSteps [simp]: "errors (inc_completedSteps c) = errors c"
  and errors_set_totalSteps [simp]: "errors (set_totalSteps n c) = errors c"
  and errors_set_startTime [simp]: "errors (set_startTime t c) = errors c"
  and errors_set_endTime [simp]: "errors (set_endTime t c) = errors c"
  by (simp_all add: push_error_def inc_failedSteps_def
      inc_completedSteps_def set_totalSteps_def set_startTime_def set_endTime_def)

lemma execute_after_loop:
  assumes "validateWorkflow (steps orc) = Inr ()"
    and "run_steps (errorHandling (config orc)) (steps orc)
            (mutate (set_startTime (clock (state orc))) (state orc)) = (r, ss, w1)"
  shows "snd (execute orc) = orc\<lparr> steps := ss, state := mutate (set_endTime (clock w1)) w1 \<rparr>"
    and "r = Inl e \<Longrightarrow> fst (execute orc) =
      Inl (if instanceof_WorkflowError e then e
           else WorkflowError (''Unexpected workflow error: '' @ message e) ''WORKFLOW'' ''WORKFLOW_ERROR'')"
    and "r = Inr () \<Longrightarrow> generateExecutionReport (snd (execute orc)) = fst (execute orc)"
proof -
  show "snd (execute orc) = orc\<lparr> steps := ss, state := mutate (set_endTime (clock w1)) w1 \<rparr>"
  proof (cases r)
    case (Inl e')
    with execute_throws [OF assms(1), of e' ss w1] assms(2) show ?thesis by simp
  next
    case (Inr u)
    with execute_completes [OF assms(1), of ss w1] assms(2) show ?thesis by auto
  qed
  show "r = Inl e \<Longrightarrow> fst (execute orc) =
      Inl (if instanceof_WorkflowError e then e
           else WorkflowError (''Unexpected workflow error: '' @ message e) ''WORKFLOW'' ''WORKFLOW_ERROR'')"
    using execute_throws [OF assms(1), of e ss w1] assms(2) by simp
  show "r = Inr () \<Longrightarrow> generateExecutionReport (snd (execute orc)) = fst (execute orc)"
    using execute_completes [OF assms(1), of ss w1] assms(2) by auto
qed

lemmas build_defs = assemble_def new_orchestrator_def addStep_def test_config_def
  ok_step_def mock_step_def new_step_def storing_fn_def mock_fn_def new_context_def

lemmas step_defs = executeStep_def invoke_def
  Let_def Step_handleError_def ErrorHandler_handleError_def executeRetry_def executeFallback_def
  shouldRetry_def

lemma flaky_run:
  "run_steps (errorHandling (config (flaky_pipeline fb))) (steps (flaky_pipeline fb))
      (mutate (set_startTime (clock (state (flaky_pipeline fb)))) (state (flaky_pipeline fb))) = (r, ss, w1)
   \<Longrightarrow> r = (if fb then Inr () else
             Inl (WorkflowError ''Workflow failed at step: Validation'' ''Validation'' ''WORKFLOW_ERROR''))
     \<and> map calls ss = (if fb then [1, 2, 1] else [1, 2, 0])
     \<and> map status ss = (if fb then [COMPLETED, FAILED, COMPLETED] else [COMPLETED, FAILED, PENDING])
     \<and> completedSteps (metadata (ctx w1)) = (if fb then 2 else 1)
     \<and> failedSteps (metadata (ctx w1)) = 1
     \<and> totalSteps (metadata (ctx w1)) = 3
     \<and> errors (ctx w1) = [PlainError ''network'']"
  by (cases fb) (auto simp: flaky_pipeline_def build_defs step_defs retry_loop.simps)


lemma network_down_run:
  "run_steps (errorHandling (config (network_down_pipeline fb))) (steps (network_down_pipeline fb))
      (mutate (set_startTime (clock (state (network_down_pipeline fb)))) (state (network_down_pipeline fb)))
      = (r, ss, w1)
   \<Longrightarrow> r = Inl (PlainError ''network'')
     \<and> map (\<lambda>s. (name s, status s, calls s)) ss =
         [(''DataInput'', COMPLETED, 1), (''Validation'', FAILED, 3), (''Report'', PENDING, 0)]
     \<and> data (ctx w1) = [(''DataInputData'', VStr ''DataInput'')]
     \<and> failedSteps (metadata (ctx w1)) = 1
     \<and> errors (ctx w1) = [PlainError ''network'']"
  by (cases fb) (auto simp: network_down_pipeline_def build_defs step_defs retry_loop.simps)

lemma example_facts:
  "validateWorkflow (steps (flaky_pipeline fb)) = Inr ()"
  "validateWorkflow (steps (network_down_pipeline fb)) = Inr ()"
  "validateWorkflow (steps invalid_config_pipeline) = Inr ()"
  "fallbackEnabled (errorHandling (config (network_down_pipeline fb))) = fb"
  "fallbackEnabled (errorHandling (config (flaky_pipeline fb))) = fb"
  "maxRetries (errorHandling (config (flaky_pipeline fb))) = 2"
  by (simp_all add: flaky_pipeline_def network_down_pipeline_def invalid_config_pipeline_def
      assemble_facts validateWorkflow_def test_config_def)

lemma rejected_data_run:
  "run_steps (errorHandling (config (rejected_data_pipeline fb))) (steps (rejected_data_pipeline fb))
      (mutate (set_startTime (clock (state (rejected_data_pipeline fb)))) (state (rejected_data_pipeline fb)))
      = (r, ss, w1)
   \<Longrightarrow> r = (if fb then Inr () else
             Inl (WorkflowError ''Workflow failed at step: Validation'' ''Validation'' ''WORKFLOW_ERROR''))
     \<and> map (\<lambda>s. (name s, status s, calls s)) ss =
         (if fb then [(''DataInput'', COMPLETED, 1), (''Validation'', FAILED, 1), (''Report'', COMPLETED, 1)]
          else [(''DataInput'', COMPLETED, 1), (''Validation'', FAILED, 1), (''Report'', PENDING, 0)])
     \<and> map_get ''Validation_fallback'' (data (ctx w1)) = Some (VBool True)
     \<and> failedSteps (metadata (ctx w1)) = 1
     \<and> errors (ctx w1) = [ValidationError ''Business rule validation failed'']"
  by (cases fb) (auto simp: rejected_data_pipeline_def build_defs step_defs retry_loop.simps)

lemma rejected_data_facts:
  "validateWorkflow (steps (rejected_data_pipeline fb)) = Inr ()"
  "fallbackEnabled (errorHandling (config (rejected_data_pipeline fb))) = fb"
  by (simp_all add: rejected_data_pipeline_def assemble_facts validateWorkflow_def test_config_def)

lemma executed_once_facts:
  "length (steps executed_once) = 3
   \<and> totalSteps (metadata (ctx (state executed_once))) = 3
   \<and> completedSteps (metadata (ctx (state executed_once))) = 3
   \<and> endTime (metadata (ctx (state executed_once))) \<noteq> None
   \<and> (\<exists>rep orc'. execute executed_once = (Inr rep, orc') \<and> generateExecutionReport orc' = Inr rep
        \<and> map status (steps orc') = [COMPLETED, COMPLETED, COMPLETED]
        \<and> completedSteps (metadata (ctx (state orc'))) = 6
        \<and> failedSteps (metadata (ctx (state orc'))) = 0
        \<and> totalSteps (metadata (ctx (state orc'))) = 3
        \<and> ctx (state orc') = last (observed (state orc')))"
proof -
  let ?ss = "[ok_step ''DataInput'', ok_step ''Validation'', ok_step ''Report'']"
  have st: "steps all_ok_pipeline = ?ss"
    and m0: "totalSteps (metadata (ctx (state all_ok_pipeline))) = 3"
      "completedSteps (metadata (ctx (state all_ok_pipeline))) = 0"
      "failedSteps (metadata (ctx (state all_ok_pipeline))) = 0"
    by (simp_all add: all_ok_pipeline_def assemble_facts)
  have res: "\<And>s k c. s \<in> set (steps all_ok_pipeline) \<Longrightarrow> \<exists>v. result (body s k c) = Inr v"
    by (auto simp: st ok_step_def new_step_def storing_fn_def)
  have len0: "3 \<le> length (steps all_ok_pipeline)" by (simp add: st)
  from execute_all_resolved [of all_ok_pipeline, OF res len0] obtain rep1 orc1
    where ex1: "execute all_ok_pipeline = (Inr rep1, orc1)"
      and bd: "map body (steps orc1) = map body (steps all_ok_pipeline)"
      and m1: "completedSteps (metadata (ctx (state orc1))) =
          completedSteps (metadata (ctx (state all_ok_pipeline))) + length (steps all_ok_pipeline)"
        "failedSteps (metadata (ctx (state orc1))) = failedSteps (metadata (ctx (state all_ok_pipeline)))"
        "totalSteps (metadata (ctx (state orc1))) = totalSteps (metadata (ctx (state all_ok_pipeline)))"
        "endTime (metadata (ctx (state orc1))) \<noteq> None"
    by auto
  have once: "executed_once = orc1" by (simp add: executed_once_def ex1)
  from bd have len: "length (steps orc1) = 3"
    using st by (metis length_map length_Cons list.size(3) numeral_3_eq_3)
  have res1: "\<And>s k c. s \<in> set (steps orc1) \<Longrightarrow> \<exists>v. result (body s k c) = Inr v"
  proof -
    fix s k c
    assume "s \<in> set (steps orc1)"
    then have "body s \<in> set (map body (steps orc1))" by simp
    with bd obtain s0 where "s0 \<in> set (steps all_ok_pipeline)" "body s = body s0" by auto
    with res [of s0 k c] show "\<exists>v. result (body s k c) = Inr v" by simp
  qed
  have len1: "3 \<le> length (steps orc1)" by (simp add: len)
  from execute_all_resolved [of orc1, OF res1 len1] obtain rep2 orc2
    where ex2: "execute orc1 = (Inr rep2, orc2)" "generateExecutionReport orc2 = Inr rep2"
      and st2: "map status (steps orc2) = replicate (length (steps orc1)) COMPLETED"
      and m2: "completedSteps (metadata (ctx (state orc2))) =
          completedSteps (metadata (ctx (state orc1))) + length (steps orc1)"
        "failedSteps (metadata (ctx (state orc2))) = failedSteps (metadata (ctx (state orc1)))"
        "totalSteps (metadata (ctx (state orc2))) = totalSteps (metadata (ctx (state orc1)))"
        "ctx (state orc2) = last (observed (state orc2))"
    by auto
  from st2 len have "map status (steps orc2) = [COMPLETED, COMPLETED, COMPLETED]"
    by (simp add: numeral_3_eq_3)
  with ex2 m2 m1 m0 len st show ?thesis
    unfolding once by auto
qed

lemma Step_handleError_effect:
  "Step_handleError e s w = (s', w') \<Longrightarrow>
       failedSteps (metadata (ctx w')) = failedSteps (metadata (ctx w)) + 1
       \<and> completedSteps (metadata (ctx w')) = completedSteps (metadata (ctx w))
       \<and> errors (ctx w') = errors (ctx w) @ [e] \<and> status s' = FAILED \<and> error s' = Some e"
  by (auto simp: Step_handleError_def)

section \<open>Claims about the context and the classification\<close>

text \<open>
  C6. Classification of an error value: an \<^verbatim>\<open>ExecutionError\<close> is EXECUTION with severity
  MEDIUM and its own \<^verbatim>\<open>retryable\<close> flag, whatever its message says. Any other error is
  classified by the first of the substrings \<^verbatim>\<open>validation\<close>, \<^verbatim>\<open>timeout\<close>, \<^verbatim>\<open>network\<close>
  that occurs in its message, in this order: VALIDATION/HIGH/not retryable,
  TIMEOUT/MEDIUM/retryable, NETWORK/MEDIUM/retryable; with none of them it is
  UNKNOWN/HIGH/not retryable.
\<close>

theorem classifyError_cases:
  "(instanceof_ExecutionError e \<longrightarrow>
      (\<exists>m s r. e = ExecutionError m s r \<and> etype (classifyError e) = ''EXECUTION''
        \<and> severity (classifyError e) = MEDIUM \<and> retryable (classifyError e) = r))
   \<and> (\<not> instanceof_ExecutionError e \<and> occurs_in ''validation'' (message e) \<longrightarrow>
        etype (classifyError e) = ''VALIDATION'' \<and> severity (classifyError e) = HIGH
        \<and> \<not> retryable (classifyError e))
   \<and> (\<not> instanceof_ExecutionError e \<and> \<not> occurs_in ''validation'' (message e)
        \<and> occurs_in ''timeout'' (message e) \<longrightarrow>
        etype (classifyError e) = ''TIMEOUT'' \<and> severity (classifyError e) = MEDIUM
        \<and> retryable (classifyError e))
   \<and> (\<not> instanceof_ExecutionError e \<and> \<not> occurs_in ''validation'' (message e)
        \<and> \<not> occurs_in ''timeout'' (message e) \<and> occurs_in ''network'' (message e) \<longrightarrow>
        etype (classifyError e) = ''NETWORK'' \<and> severity (classifyError e) = MEDIUM
        \<and> retryable (classifyError e))
   \<and> (\<not> instanceof_ExecutionError e \<and> \<not> occurs_in ''validation'' (message e)
        \<and> \<not> occurs_in ''timeout'' (message e) \<and> \<not> occurs_in ''network'' (message e) \<longrightarrow>
        etype (classifyError e) = ''UNKNOWN'' \<and> severity (classifyError e) = HIGH
        \<and> \<not> retryable (classifyError e))"
  by (cases e) (simp_all add: includes_iff)

theorem classifyError_cases_witness:
  "etype (classifyError (ExecutionError ''validation timeout'' ''Valuation'' True)) = ''EXECUTION''
   \<and> retryable (classifyError (ExecutionError ''validation timeout'' ''Valuation'' True))
   \<and> etype (classifyError (ValidationError ''Schema validation failed'')) = ''VALIDATION''
   \<and> etype (classifyError (PlainError ''network timeout'')) = ''TIMEOUT''
   \<and> etype (classifyError (PlainError ''network down'')) = ''NETWORK''
   \<and> etype (classifyError (PlainError ''Validation failed'')) = ''UNKNOWN''"
  using classifyError_cases [of "ExecutionError ''validation timeout'' ''Valuation'' True"]
    classifyError_cases [of "ValidationError ''Schema validation failed''"]
    classifyError_cases [of "PlainError ''network timeout''"]
    classifyError_cases [of "PlainError ''network down''"]
    classifyError_cases [of "PlainError ''Validation failed''"]
  by (simp add: includes_iff [symmetric])

text \<open>
  C7. \<^verbatim>\<open>setStepOutput\<close> on a name that already has a record replaces only the record's
  \<^verbatim>\<open>output\<close>; on a name without a record it stores a new record with status COMPLETED,
  both timestamps \<open>now\<close>, the given output, no error and duration 0. In both cases the
  records of all other names, and the data, metadata and error log, are unchanged.
\<close>

theorem setStepOutput_merge:
  "(\<forall>r. getStepOutput n c = Some r \<longrightarrow>
       getStepOutput n (setStepOutput now n out c) = Some (r\<lparr> so_output := out \<rparr>))
   \<and> (getStepOutput n c = None \<longrightarrow>
       getStepOutput n (setStepOutput now n out c) =
         Some \<lparr> so_status = COMPLETED, so_startTime = Some now, so_endTime = Some now,
                so_output = out, so_error = None, so_duration = Some 0 \<rparr>)
   \<and> (\<forall>n'. n' \<noteq> n \<longrightarrow> getStepOutput n' (setStepOutput now n out c) = getStepOutput n' c)
   \<and> data (setStepOutput now n out c) = data c
   \<and> metadata (setStepOutput now n out c) = metadata c
   \<and> errors (setStepOutput now n out c) = errors c"
  by (simp add: setStepOutput_def getStepOutput_def map_get_map_set split: option.splits)

theorem setStepOutput_merge_witness:
  "getStepOutput ''testStep'' (setStepOutput 7 ''testStep'' (VStr ''updated'')
      (setStepOutput 5 ''testStep'' (VStr ''initial'') (new_context ''u'' ''test-workflow'' 3)))
   = Some \<lparr> so_status = COMPLETED, so_startTime = Some 5, so_endTime = Some 5,
            so_output = VStr ''updated'', so_error = None, so_duration = Some 0 \<rparr>
   \<and> getStepOutput ''other'' (setStepOutput 7 ''testStep'' (VStr ''updated'')
      (setStepOutput 5 ''testStep'' (VStr ''initial'') (new_context ''u'' ''test-workflow'' 3)))
   = None"
  using setStepOutput_merge [of "''testStep''" "new_context ''u'' ''test-workflow'' 3" 5 "VStr ''initial''"]
    setStepOutput_merge [of "''testStep''"
      "setStepOutput 5 ''testStep'' (VStr ''initial'') (new_context ''u'' ''test-workflow'' 3)"
      7 "VStr ''updated''"]
  by (simp add: getStepOutput_def new_context_def)

section \<open>Claims about a run\<close>

text \<open>
  C4. \<^verbatim>\<open>Step.handleError\<close> increments \<^verbatim>\<open>failedSteps\<close> by one and appends the error to
  \<^verbatim>\<open>context.errors\<close> at once. The retry path changes neither the counters nor the error
  log, whatever its outcome, and changes the step object in its call count only; when
  the first retry succeeds, the state it leaves is the state after the backoff wait and
  the step's own call, nothing more. So for a step whose first call fails with an error
  that is retried and whose next call succeeds, \<^verbatim>\<open>executeStep\<close> returns normally after
  two calls with \<^verbatim>\<open>failedSteps\<close> one higher than before, \<^verbatim>\<open>completedSteps\<close> unchanged
  and the first error still the last entry of the error log. The counters and the log
  are changed in this way however the handling of a failed first call ends.
\<close>

theorem failure_counted_and_kept:
  "(Step_handleError e s w = (s', w') \<longrightarrow>
       failedSteps (metadata (ctx w')) = failedSteps (metadata (ctx w)) + 1
       \<and> completedSteps (metadata (ctx w')) = completedSteps (metadata (ctx w))
       \<and> errors (ctx w') = errors (ctx w) @ [e] \<and> status s' = FAILED \<and> error s' = Some e)
   \<and> (executeRetry cfg e s w = (r, s'', w'') \<longrightarrow>
       metadata (ctx w'') = metadata (ctx w) \<and> errors (ctx w'') = errors (ctx w)
       \<and> s'' = s\<lparr> calls := calls s'' \<rparr>)
   \<and> (0 < maxRetries cfg \<and> result (body s (calls s) (ctx w)) = Inr v \<longrightarrow>
       executeRetry cfg e s w =
         (Inr (), s\<lparr> calls := calls s + 1 \<rparr>,
          perform_all (writes (body s (calls s) (ctx w)))
            (sleep (elapsed (body s (calls s) (ctx w))) (sleep (delay (retryStrategy cfg) 0) w))))
   \<and> ((\<forall>c. result (body s (calls s) c) = Inl e) \<and> shouldRetry cfg (classifyError e)
        \<and> (\<forall>c. \<exists>u. result (body s (Suc (calls s)) c) = Inr u) \<longrightarrow>
       (\<exists>s3 w3. executeStep cfg s w = (Inr (), s3, w3) \<and> calls s3 = calls s + 2 \<and> status s3 = FAILED
          \<and> failedSteps (metadata (ctx w3)) = failedSteps (metadata (ctx w)) + 1
          \<and> completedSteps (metadata (ctx w3)) = completedSteps (metadata (ctx w))
          \<and> errors (ctx w3) = errors (ctx w) @ [e]))
   \<and> ((\<forall>c. result (body s (calls s) c) = Inl e) \<and> executeStep cfg s w = (r', s4, w4) \<longrightarrow>
       status s4 = FAILED
       \<and> failedSteps (metadata (ctx w4)) = failedSteps (metadata (ctx w)) + 1
       \<and> completedSteps (metadata (ctx w4)) = completedSteps (metadata (ctx w))
       \<and> errors (ctx w4) = errors (ctx w) @ [e])"
proof (intro conjI; rule impI)
  assume "Step_handleError e s w = (s', w')"
  from Step_handleError_effect [OF this]
  show "failedSteps (metadata (ctx w')) = failedSteps (metadata (ctx w)) + 1
       \<and> completedSteps (metadata (ctx w')) = completedSteps (metadata (ctx w))
       \<and> errors (ctx w') = errors (ctx w) @ [e] \<and> status s' = FAILED \<and> error s' = Some e" .
next
  assume "executeRetry cfg e s w = (r, s'', w'')"
  then have "retry_loop cfg 0 s w = (r, s'', w'')" by (simp add: executeRetry_def)
  from retry_loop_frame [OF this]
  show "metadata (ctx w'') = metadata (ctx w) \<and> errors (ctx w'') = errors (ctx w)
       \<and> s'' = s\<lparr> calls := calls s'' \<rparr>" by simp
next
  assume a: "0 < maxRetries cfg \<and> result (body s (calls s) (ctx w)) = Inr v"
  have "invoke s (sleep (delay (retryStrategy cfg) 0) w) =
      (Inr v, s\<lparr> calls := calls s + 1 \<rparr>,
       perform_all (writes (body s (calls s) (ctx w)))
            (sleep (elapsed (body s (calls s) (ctx w))) (sleep (delay (retryStrategy cfg) 0) w)))"
    using a by (simp add: invoke_eq)
  from retry_loop_success [OF _ this] a
  show "executeRetry cfg e s w =
         (Inr (), s\<lparr> calls := calls s + 1 \<rparr>,
          perform_all (writes (body s (calls s) (ctx w)))
            (sleep (elapsed (body s (calls s) (ctx w))) (sleep (delay (retryStrategy cfg) 0) w)))"
    by (simp add: executeRetry_def)
next
  assume a: "(\<forall>c. result (body s (calls s) c) = Inl e) \<and> shouldRetry cfg (classifyError e)
        \<and> (\<forall>c. \<exists>u. result (body s (Suc (calls s)) c) = Inr u)"
  then have 1: "\<And>c. result (body s (calls s) c) = Inl e"
    and 2: "shouldRetry cfg (classifyError e)"
    and 3: "\<And>c. \<exists>u. result (body s (Suc (calls s)) c) = Inr u" by blast+
  from executeStep_retry_success [of s e cfg w, OF 1 2 3] obtain s3 w3
    where "executeStep cfg s w = (Inr (), s3, w3)" "status s3 = FAILED" "calls s3 = calls s + 2"
      "metadata (ctx w3) = (metadata (ctx w))\<lparr> failedSteps := failedSteps (metadata (ctx w)) + 1 \<rparr>"
      "errors (ctx w3) = errors (ctx w) @ [e]"
    by blast
  then show "\<exists>s3 w3. executeStep cfg s w = (Inr (), s3, w3) \<and> calls s3 = calls s + 2 \<and> status s3 = FAILED
          \<and> failedSteps (metadata (ctx w3)) = failedSteps (metadata (ctx w)) + 1
          \<and> completedSteps (metadata (ctx w3)) = completedSteps (metadata (ctx w))
          \<and> errors (ctx w3) = errors (ctx w) @ [e]"
    by simp
next
  assume a: "(\<forall>c. result (body s (calls s) c) = Inl e) \<and> executeStep cfg s w = (r', s4, w4)"
  then have 1: "\<And>c. result (body s (calls s) c) = Inl e"
    and 2: "executeStep cfg s w = (r', s4, w4)" by blast+
  from executeStep_rejected [of s e cfg w r' s4 w4, OF 1 2]
  show "status s4 = FAILED
       \<and> failedSteps (metadata (ctx w4)) = failedSteps (metadata (ctx w)) + 1
       \<and> completedSteps (metadata (ctx w4)) = completedSteps (metadata (ctx w))
       \<and> errors (ctx w4) = errors (ctx w) @ [e]"
    by simp
qed

theorem failure_counted_and_kept_witness:
  "\<exists>s3 w3. executeStep (errorHandling (test_config 2 True))
        (mock_step ''Validation'' [Rejected (PlainError ''network''), Resolved VUndefined])
        (state all_ok_pipeline) = (Inr (), s3, w3)
      \<and> calls s3 = 2 \<and> status s3 = FAILED
      \<and> failedSteps (metadata (ctx w3)) = 1 \<and> completedSteps (metadata (ctx w3)) = 0
      \<and> errors (ctx w3) = [PlainError ''network'']"
proof -
  let ?s = "mock_step ''Validation'' [Rejected (PlainError ''network''), Resolved VUndefined]"
  let ?cfg = "errorHandling (test_config 2 True)"
  have h: "\<forall>c. result (body ?s (calls ?s) c) = Inl (PlainError ''network'')"
    "shouldRetry ?cfg (classifyError (PlainError ''network''))"
    "\<forall>c. \<exists>u. result (body ?s (Suc (calls ?s)) c) = Inr u"
    by (simp_all add: mock_step_def new_step_def mock_fn_def shouldRetry_def test_config_def)
  have w: "failedSteps (metadata (ctx (state all_ok_pipeline))) = 0"
    "completedSteps (metadata (ctx (state all_ok_pipeline))) = 0"
    "errors (ctx (state all_ok_pipeline)) = []" "calls ?s = 0"
    by (simp_all add: all_ok_pipeline_def assemble_facts mock_step_def new_step_def)
  from failure_counted_and_kept [of "PlainError ''network''" ?s "state all_ok_pipeline" _ _ ?cfg] h
  have "\<exists>s3 w3. executeStep ?cfg ?s (state all_ok_pipeline) = (Inr (), s3, w3)
      \<and> calls s3 = calls ?s + 2 \<and> status s3 = FAILED
      \<and> failedSteps (metadata (ctx w3)) = failedSteps (metadata (ctx (state all_ok_pipeline))) + 1
      \<and> completedSteps (metadata (ctx w3)) = completedSteps (metadata (ctx (state all_ok_pipeline)))
      \<and> errors (ctx w3) = errors (ctx (state all_ok_pipeline)) @ [PlainError ''network'']"
    by blast
  then show ?thesis by (simp add: w numeral_2_eq_2)
qed

text \<open>
  C8, as the code has it. During the first run of an assembled orchestrator the counters satisfy
  \<open>completedSteps + failedSteps \<le> totalSteps\<close> at every point: every context recorded
  in the history, from the construction and each \<^verbatim>\<open>addStep\<close> to the return of
  \<^verbatim>\<open>execute\<close>, satisfies it. \<^verbatim>\<open>endTime\<close> is \<^verbatim>\<open>null\<close> in every recorded context but the last, which is the one
  that the assignment after the loop (or the one in the \<^verbatim>\<open>catch\<close> block) produces, and
  which is the context that \<^verbatim>\<open>execute\<close> leaves.
\<close>

theorem counters_within_total:
  "let obs = observed (state (snd (execute (assemble cfg uuid now heap cpu ss))))
   in obs \<noteq> []
      \<and> (\<forall>c \<in> set obs. counters_ok (metadata c))
      \<and> (\<forall>c \<in> set (butlast obs). endTime (metadata c) = None)
      \<and> endTime (metadata (last obs)) \<noteq> None
      \<and> last obs = ctx (state (snd (execute (assemble cfg uuid now heap cpu ss))))"
proof -
  let ?orc = "assemble cfg uuid now heap cpu ss"
  have "running (length (steps ?orc)) (mutate (set_startTime (clock (state ?orc))) (state ?orc))"
    using running_assembled [of ss _ cfg uuid now heap cpu] assemble_facts [of cfg uuid now heap cpu ss]
    by simp
  from execute_final_state [OF this] obtain w
    where w: "running 0 w" "state (snd (execute ?orc)) = mutate (set_endTime (clock w)) w"
    by blast
  from w(1) show ?thesis
    by (simp add: w(2) Let_def running_def list_all_iff counters_ok_def set_endTime_def)
qed

theorem counters_within_total_witness:
  "observed (state (snd (execute (flaky_pipeline True)))) \<noteq> []
   \<and> list_all (\<lambda>c. counters_ok (metadata c)) (observed (state (snd (execute (flaky_pipeline True)))))
   \<and> endTime (metadata (ctx (state (snd (execute (flaky_pipeline True)))))) \<noteq> None
   \<and> completedSteps (metadata (ctx (state (snd (execute (flaky_pipeline True)))))) = 2
   \<and> failedSteps (metadata (ctx (state (snd (execute (flaky_pipeline True)))))) = 1
   \<and> totalSteps (metadata (ctx (state (snd (execute (flaky_pipeline True)))))) = 3"
proof -
  let ?orc = "flaky_pipeline True"
  let ?obs = "observed (state (snd (execute ?orc)))"
  obtain r ss w1 where rs: "run_steps (errorHandling (config ?orc)) (steps ?orc)
      (mutate (set_startTime (clock (state ?orc))) (state ?orc)) = (r, ss, w1)"
    by (metis prod_cases3)
  note run = flaky_run [OF rs]
  note ex = execute_after_loop [OF example_facts(1) rs]
  from run have m: "completedSteps (metadata (ctx (state (snd (execute ?orc))))) = 2
    \<and> failedSteps (metadata (ctx (state (snd (execute ?orc))))) = 1
    \<and> totalSteps (metadata (ctx (state (snd (execute ?orc))))) = 3"
    by (simp add: ex(1))
  have t: "?obs \<noteq> [] \<and> (\<forall>c \<in> set ?obs. counters_ok (metadata c))
      \<and> (\<forall>c \<in> set (butlast ?obs). endTime (metadata c) = None)
      \<and> endTime (metadata (last ?obs)) \<noteq> None
      \<and> last ?obs = ctx (state (snd (execute ?orc)))"
    using counters_within_total [of "test_config 2 True" "''uuid''" 1000 64 8
        "[ok_step ''DataInput'',
          mock_step ''Validation'' [Rejected (PlainError ''network''), Resolved VUndefined],
          ok_step ''Report'']"]
    unfolding flaky_pipeline_def Let_def .
  then have "list_all (\<lambda>c. counters_ok (metadata c)) ?obs" unfolding list_all_iff by blast
  moreover from t have "endTime (metadata (ctx (state (snd (execute ?orc))))) \<noteq> None"
    by metis
  ultimately show ?thesis using t m by blast
qed

text \<open>
  C8 as stated fails: \<^verbatim>\<open>execute\<close> is public and resets neither the counters nor
  \<^verbatim>\<open>endTime\<close>. On an orchestrator of three steps that has run once, \<^verbatim>\<open>endTime\<close> is set
  when the second run enters its loop, and the second run leaves \<open>completedSteps = 6\<close>
  with \<open>totalSteps = 3\<close>, in a context that is the last of the history.
\<close>

theorem repeated_run_counters:
  "length (steps executed_once) = 3
   \<and> endTime (metadata (ctx (mutate (set_startTime (clock (state executed_once)))
                              (state executed_once)))) \<noteq> None
   \<and> completedSteps (metadata (ctx (state (snd (execute executed_once))))) = 6
   \<and> totalSteps (metadata (ctx (state (snd (execute executed_once))))) = 3
   \<and> \<not> counters_ok (metadata (ctx (state (snd (execute executed_once)))))
   \<and> ctx (state (snd (execute executed_once))) = last (observed (state (snd (execute executed_once))))"
proof -
  from executed_once_facts obtain rep orc'
    where ex: "execute executed_once = (Inr rep, orc')"
      and m: "completedSteps (metadata (ctx (state orc'))) = 6"
        "failedSteps (metadata (ctx (state orc'))) = 0"
        "totalSteps (metadata (ctx (state orc'))) = 3"
        "ctx (state orc') = last (observed (state orc'))"
    by auto
  from executed_once_facts
  have "endTime (metadata (ctx (mutate (set_startTime (clock (state executed_once)))
                              (state executed_once)))) \<noteq> None"
    by simp
  with ex m executed_once_facts show ?thesis by (simp add: counters_ok_def)
qed

text \<open>
  C9, as the code has it. Whenever \<^verbatim>\<open>execute\<close> returns a report, the report's status is
  COMPLETED exactly when \<^verbatim>\<open>failedSteps\<close> of the context is 0 and FAILED otherwise, its
  summary repeats the three counters, and its \<^verbatim>\<open>successRate\<close> is the double that
  \<^verbatim>\<open>(completedSteps / totalSteps) * 100\<close> evaluates to: the quotient rounded to a double,
  times 100, rounded again (and what division by zero gives when \<^verbatim>\<open>totalSteps\<close> is 0).
  For the first run of an assembled orchestrator in which every step ends COMPLETED, the
  report has \<open>totalSteps\<close> and \<open>completedSteps\<close> equal to the number of steps,
  \<open>failedSteps = 0\<close>, \<open>successRate = 100\<close> and status COMPLETED; with three steps these are
  3, 3, 0 and 100.
\<close>

theorem execution_report_summary:
  "(execute orc = (Inr rep, orc') \<longrightarrow>
      (rep_status rep = REPORT_COMPLETED \<longleftrightarrow> failedSteps (metadata (ctx (state orc'))) = 0)
      \<and> (rep_status rep = REPORT_FAILED \<longleftrightarrow> failedSteps (metadata (ctx (state orc'))) \<noteq> 0)
      \<and> sum_totalSteps (rep_summary rep) = totalSteps (metadata (ctx (state orc')))
      \<and> sum_completedSteps (rep_summary rep) = completedSteps (metadata (ctx (state orc')))
      \<and> sum_failedSteps (rep_summary rep) = failedSteps (metadata (ctx (state orc')))
      \<and> (totalSteps (metadata (ctx (state orc'))) \<noteq> 0 \<longrightarrow>
           successRate (rep_summary rep) =
             Num (to_double (to_double (real (completedSteps (metadata (ctx (state orc'))))
                                        / real (totalSteps (metadata (ctx (state orc'))))) * 100)))
      \<and> (totalSteps (metadata (ctx (state orc'))) = 0 \<longrightarrow>
           successRate (rep_summary rep) =
             (if completedSteps (metadata (ctx (state orc'))) = 0 then NaN else PosInfinity)))
   \<and> (execute (assemble cfg uuid now heap cpu ss) = (Inr rep1, orc1)
        \<and> (\<forall>s \<in> set (steps orc1). status s = COMPLETED) \<longrightarrow>
      rep_status rep1 = REPORT_COMPLETED
      \<and> sum_totalSteps (rep_summary rep1) = length ss
      \<and> sum_completedSteps (rep_summary rep1) = length ss
      \<and> sum_failedSteps (rep_summary rep1) = 0
      \<and> successRate (rep_summary rep1) = Num 100
      \<and> 3 \<le> length ss)"
proof (intro conjI; rule impI)
  assume ex: "execute orc = (Inr rep, orc')"
  from execute_returns [OF ex] have rep: "generateExecutionReport orc' = Inr rep" by blast
  note rc = report_of_context [OF rep]
  let ?m = "metadata (ctx (state orc'))"
  have 1: "rep_status rep = REPORT_COMPLETED \<longleftrightarrow> failedSteps ?m = 0" using rc(1) by simp
  have 2: "rep_status rep = REPORT_FAILED \<longleftrightarrow> failedSteps ?m \<noteq> 0" using rc(1) by simp
  have 3: "totalSteps ?m \<noteq> 0 \<longrightarrow> successRate (rep_summary rep) =
      Num (to_double (to_double (real (completedSteps ?m) / real (totalSteps ?m)) * 100))"
    using rc(5) by (simp add: js_div_def)
  have 4: "totalSteps ?m = 0 \<longrightarrow> successRate (rep_summary rep) =
      (if completedSteps ?m = 0 then NaN else PosInfinity)"
    using rc(5) by (simp add: js_div_def)
  from 1 2 3 4 rc(2) rc(3) rc(4)
  show "(rep_status rep = REPORT_COMPLETED \<longleftrightarrow> failedSteps (metadata (ctx (state orc'))) = 0)
      \<and> (rep_status rep = REPORT_FAILED \<longleftrightarrow> failedSteps (metadata (ctx (state orc'))) \<noteq> 0)
      \<and> sum_totalSteps (rep_summary rep) = totalSteps (metadata (ctx (state orc')))
      \<and> sum_completedSteps (rep_summary rep) = completedSteps (metadata (ctx (state orc')))
      \<and> sum_failedSteps (rep_summary rep) = failedSteps (metadata (ctx (state orc')))
      \<and> (totalSteps (metadata (ctx (state orc'))) \<noteq> 0 \<longrightarrow>
           successRate (rep_summary rep) =
             Num (to_double (to_double (real (completedSteps (metadata (ctx (state orc'))))
                                        / real (totalSteps (metadata (ctx (state orc'))))) * 100)))
      \<and> (totalSteps (metadata (ctx (state orc'))) = 0 \<longrightarrow>
           successRate (rep_summary rep) =
             (if completedSteps (metadata (ctx (state orc'))) = 0 then NaN else PosInfinity))"
    by blast
next
  let ?orc = "assemble cfg uuid now heap cpu ss"
  assume a: "execute ?orc = (Inr rep1, orc1) \<and> (\<forall>s \<in> set (steps orc1). status s = COMPLETED)"
  then have ex: "execute ?orc = (Inr rep1, orc1)"
    and fin: "\<forall>s \<in> set (steps orc1). status s = COMPLETED" by blast+
  note af = assemble_facts [of cfg uuid now heap cpu ss]
  from execute_returns [OF ex] af obtain ss' w1
    where rs: "run_steps (errorHandling (config ?orc)) ss
            (mutate (set_startTime (clock (state ?orc))) (state ?orc)) = (Inr (), ss', w1)"
      and orc1: "orc1 = ?orc\<lparr> steps := ss', state := mutate (set_endTime (clock w1)) w1 \<rparr>"
      and rep: "generateExecutionReport orc1 = Inr rep1" and len: "3 \<le> length ss"
    by auto
  from fin orc1 have "\<forall>s \<in> set ss'. status s = COMPLETED" by simp
  from run_steps_all_completed [OF rs this] af
  have m: "completedSteps (metadata (ctx (state orc1))) = length ss"
    "failedSteps (metadata (ctx (state orc1))) = 0"
    "totalSteps (metadata (ctx (state orc1))) = length ss"
    by (simp_all add: orc1 set_endTime_def set_startTime_def)
  from len have "0 < length ss" by linarith
  then have pos: "real (length ss) \<noteq> 0" by simp
  note rc = report_of_context [OF rep]
  from rc m pos len
  show "rep_status rep1 = REPORT_COMPLETED
      \<and> sum_totalSteps (rep_summary rep1) = length ss
      \<and> sum_completedSteps (rep_summary rep1) = length ss
      \<and> sum_failedSteps (rep_summary rep1) = 0
      \<and> successRate (rep_summary rep1) = Num 100
      \<and> 3 \<le> length ss"
    by (simp add: js_div_def to_double_1 to_double_100)
qed

theorem execution_report_summary_witness:
  "(\<exists>rep orc'. execute all_ok_pipeline = (Inr rep, orc') \<and> rep_status rep = REPORT_COMPLETED
     \<and> sum_totalSteps (rep_summary rep) = 3 \<and> sum_completedSteps (rep_summary rep) = 3
     \<and> sum_failedSteps (rep_summary rep) = 0 \<and> successRate (rep_summary rep) = Num 100
     \<and> failedSteps (metadata (ctx (state orc'))) = 0)
   \<and> (\<exists>rep orc'. execute (flaky_pipeline True) = (Inr rep, orc') \<and> rep_status rep = REPORT_FAILED
     \<and> sum_totalSteps (rep_summary rep) = 3 \<and> sum_completedSteps (rep_summary rep) = 2
     \<and> sum_failedSteps (rep_summary rep) = 1
     \<and> successRate (rep_summary rep) = Num (4691249611844266 / 2 ^ 46))"
proof -
  let ?ss = "[ok_step ''DataInput'', ok_step ''Validation'', ok_step ''Report'']"
  have p: "all_ok_pipeline = assemble (test_config 2 True) ''uuid'' 1000 64 8 ?ss"
    by (simp add: all_ok_pipeline_def)
  have st: "steps all_ok_pipeline = ?ss" by (simp add: p assemble_facts)
  have res: "\<And>s k c. s \<in> set (steps all_ok_pipeline) \<Longrightarrow> \<exists>v. result (body s k c) = Inr v"
    by (auto simp: st ok_step_def new_step_def storing_fn_def)
  have len0: "3 \<le> length (steps all_ok_pipeline)" by (simp add: st)
  from execute_all_resolved [of all_ok_pipeline, OF res len0] obtain rep orc'
    where ex: "execute all_ok_pipeline = (Inr rep, orc')"
      and fin: "map status (steps orc') = replicate (length (steps all_ok_pipeline)) COMPLETED"
    by auto
  from fin have "\<forall>s \<in> set (steps orc'). status s = COMPLETED"
    by (metis in_set_replicate set_map imageI)
  with execution_report_summary [of all_ok_pipeline rep orc' "test_config 2 True" "''uuid''" 1000 64 8
      ?ss rep orc'] ex
  have a: "rep_status rep = REPORT_COMPLETED
     \<and> sum_totalSteps (rep_summary rep) = 3 \<and> sum_completedSteps (rep_summary rep) = 3
     \<and> sum_failedSteps (rep_summary rep) = 0 \<and> successRate (rep_summary rep) = Num 100
     \<and> failedSteps (metadata (ctx (state orc'))) = 0"
    unfolding p by simp
  let ?f = "flaky_pipeline True"
  obtain r ss w1 where rs: "run_steps (errorHandling (config ?f)) (steps ?f)
      (mutate (set_startTime (clock (state ?f))) (state ?f)) = (r, ss, w1)"
    by (metis prod_cases3)
  note run = flaky_run [OF rs]
  from run have r: "r = Inr ()" by simp
  from execute_completes [OF example_facts(1) rs [unfolded r]] obtain rep2
    where ex2: "execute ?f = (Inr rep2, ?f\<lparr> steps := ss, state := mutate (set_endTime (clock w1)) w1 \<rparr>)"
    by blast
  let ?o2 = "?f\<lparr> steps := ss, state := mutate (set_endTime (clock w1)) w1 \<rparr>"
  have m2: "completedSteps (metadata (ctx (state ?o2))) = 2" "failedSteps (metadata (ctx (state ?o2))) = 1"
    "totalSteps (metadata (ctx (state ?o2))) = 3"
    using run by simp_all
  from execution_report_summary [of ?f rep2 ?o2] ex2 m2
  have b: "rep_status rep2 = REPORT_FAILED
     \<and> sum_totalSteps (rep_summary rep2) = 3 \<and> sum_completedSteps (rep_summary rep2) = 2
     \<and> sum_failedSteps (rep_summary rep2) = 1
     \<and> successRate (rep_summary rep2) = Num (4691249611844266 / 2 ^ 46)"
    by (simp add: rate_two_of_three)
  from a ex b ex2 show ?thesis by blast
qed

text \<open>
  C9 as stated fails: \<^verbatim>\<open>execute\<close> never resets the counters, so on an orchestrator that
  has run once a second run of the same three steps, all of which succeed again, returns
  a report with \<open>totalSteps = 3\<close>, \<open>completedSteps = 6\<close> and \<open>successRate = 200\<close>.
\<close>

theorem repeated_run_report:
  "length (steps executed_once) = 3
   \<and> \<not> isl (fst (execute executed_once))
   \<and> map status (steps (snd (execute executed_once))) = [COMPLETED, COMPLETED, COMPLETED]
   \<and> sum_totalSteps (rep_summary (projr (fst (execute executed_once)))) = 3
   \<and> sum_completedSteps (rep_summary (projr (fst (execute executed_once)))) = 6
   \<and> sum_failedSteps (rep_summary (projr (fst (execute executed_once)))) = 0
   \<and> successRate (rep_summary (projr (fst (execute executed_once)))) = Num 200"
proof -
  from executed_once_facts obtain rep orc'
    where ex: "execute executed_once = (Inr rep, orc')"
      and rep: "generateExecutionReport orc' = Inr rep"
      and st: "map status (steps orc') = [COMPLETED, COMPLETED, COMPLETED]"
      and m: "completedSteps (metadata (ctx (state orc'))) = 6"
        "failedSteps (metadata (ctx (state orc'))) = 0"
        "totalSteps (metadata (ctx (state orc'))) = 3"
    by auto
  note rc = report_of_context [OF rep]
  from rc m have "sum_totalSteps (rep_summary rep) = 3 \<and> sum_completedSteps (rep_summary rep) = 6
    \<and> sum_failedSteps (rep_summary rep) = 0 \<and> successRate (rep_summary rep) = Num 200"
    by (simp add: js_div_def to_double_2 to_double_200)
  with ex st executed_once_facts show ?thesis by simp
qed

text \<open>
  C1, at the input where the code departs from it. With \<^verbatim>\<open>fallbackEnabled = true\<close> and
  \<^verbatim>\<open>maxRetries = 2\<close>, the second of three steps fails with a network error on its first
  call and on both retries. The last retry error leaves \<^verbatim>\<open>executeRetry\<close>,
  \<^verbatim>\<open>handleError\<close> and \<^verbatim>\<open>executeStep\<close> as an exception: \<^verbatim>\<open>execute\<close> throws
  ``Unexpected workflow error'', no fallback entry is written for the step, and the third
  step is never called. For comparison, a failure that is not retried: the fallback entry
  is written, the third step runs and \<^verbatim>\<open>execute\<close> returns a report.
\<close>

theorem exhausted_retries_escape_execute:
  "fallbackEnabled (errorHandling (config (network_down_pipeline True)))
   \<and> fst (execute (network_down_pipeline True)) =
       Inl (WorkflowError ''Unexpected workflow error: network'' ''WORKFLOW'' ''WORKFLOW_ERROR'')
   \<and> getData ''Validation_fallback'' (ctx (state (snd (execute (network_down_pipeline True))))) = None
   \<and> map (\<lambda>s. (name s, status s, calls s)) (steps (snd (execute (network_down_pipeline True)))) =
       [(''DataInput'', COMPLETED, 1), (''Validation'', FAILED, 3), (''Report'', PENDING, 0)]
   \<and> \<not> isl (fst (execute (rejected_data_pipeline True)))
   \<and> getData ''Validation_fallback'' (ctx (state (snd (execute (rejected_data_pipeline True)))))
       = Some (VBool True)
   \<and> map (\<lambda>s. (name s, status s, calls s)) (steps (snd (execute (rejected_data_pipeline True)))) =
       [(''DataInput'', COMPLETED, 1), (''Validation'', FAILED, 1), (''Report'', COMPLETED, 1)]"
proof -
  let ?orc = "network_down_pipeline True"
  obtain r ss w1 where rs: "run_steps (errorHandling (config ?orc)) (steps ?orc)
      (mutate (set_startTime (clock (state ?orc))) (state ?orc)) = (r, ss, w1)"
    by (metis prod_cases3)
  note run = network_down_run [OF rs]
  note ex = execute_after_loop [OF example_facts(2) rs]
  from run ex(2) [of "PlainError ''network''"]
  have a: "fst (execute ?orc) =
       Inl (WorkflowError ''Unexpected workflow error: network'' ''WORKFLOW'' ''WORKFLOW_ERROR'')"
    by simp
  from run have b: "getData ''Validation_fallback'' (ctx (state (snd (execute ?orc)))) = None"
    by (simp add: ex(1) getData_def)
  from run have c: "map (\<lambda>s. (name s, status s, calls s)) (steps (snd (execute ?orc))) =
       [(''DataInput'', COMPLETED, 1), (''Validation'', FAILED, 3), (''Report'', PENDING, 0)]"
    by (simp add: ex(1))
  let ?sib = "rejected_data_pipeline True"
  obtain r' ss' w1' where rs': "run_steps (errorHandling (config ?sib)) (steps ?sib)
      (mutate (set_startTime (clock (state ?sib))) (state ?sib)) = (r', ss', w1')"
    by (metis prod_cases3)
  note run' = rejected_data_run [OF rs']
  note ex' = execute_after_loop [OF rejected_data_facts(1) rs']
  from run' have r': "r' = Inr ()" by simp
  from execute_completes [OF rejected_data_facts(1) rs' [unfolded r']]
  have d: "\<not> isl (fst (execute ?sib))" by auto
  from run' have e: "getData ''Validation_fallback'' (ctx (state (snd (execute ?sib)))) = Some (VBool True)"
    by (simp add: ex'(1) getData_def)
  from run' have f: "map (\<lambda>s. (name s, status s, calls s)) (steps (snd (execute ?sib))) =
       [(''DataInput'', COMPLETED, 1), (''Validation'', FAILED, 1), (''Report'', COMPLETED, 1)]"
    by (simp add: ex'(1))
  from a b c d e f show ?thesis by (simp add: example_facts)
qed

text \<open>
  C2, at the input where the code departs from it. The same pipeline with
  \<^verbatim>\<open>fallbackEnabled = false\<close>: the run stops at the failed second step and the third
  step is never called, but the error that \<^verbatim>\<open>execute\<close> throws carries the step
  \<^verbatim>\<open>WORKFLOW\<close> and the message of the retry error; it does not name the failed step.
  For comparison, a failure that is not retried: the error names the failed step.
\<close>

theorem abort_after_exhausted_retries:
  "\<not> fallbackEnabled (errorHandling (config (network_down_pipeline False)))
   \<and> fst (execute (network_down_pipeline False)) =
       Inl (WorkflowError ''Unexpected workflow error: network'' ''WORKFLOW'' ''WORKFLOW_ERROR'')
   \<and> map (\<lambda>s. (name s, status s, calls s)) (steps (snd (execute (network_down_pipeline False)))) =
       [(''DataInput'', COMPLETED, 1), (''Validation'', FAILED, 3), (''Report'', PENDING, 0)]
   \<and> fst (execute (rejected_data_pipeline False)) =
       Inl (WorkflowError ''Workflow failed at step: Validation'' ''Validation'' ''WORKFLOW_ERROR'')
   \<and> map (\<lambda>s. (name s, status s, calls s)) (steps (snd (execute (rejected_data_pipeline False)))) =
       [(''DataInput'', COMPLETED, 1), (''Validation'', FAILED, 1), (''Report'', PENDING, 0)]"
proof -
  let ?orc = "network_down_pipeline False"
  obtain r ss w1 where rs: "run_steps (errorHandling (config ?orc)) (steps ?orc)
      (mutate (set_startTime (clock (state ?orc))) (state ?orc)) = (r, ss, w1)"
    by (metis prod_cases3)
  note run = network_down_run [OF rs]
  note ex = execute_after_loop [OF example_facts(2) rs]
  from run ex(2) [of "PlainError ''network''"]
  have a: "fst (execute ?orc) =
       Inl (WorkflowError ''Unexpected workflow error: network'' ''WORKFLOW'' ''WORKFLOW_ERROR'')"
    by simp
  from run have b: "map (\<lambda>s. (name s, status s, calls s)) (steps (snd (execute ?orc))) =
       [(''DataInput'', COMPLETED, 1), (''Validation'', FAILED, 3), (''Report'', PENDING, 0)]"
    by (simp add: ex(1))
  let ?sib = "rejected_data_pipeline False"
  obtain r' ss' w1' where rs': "run_steps (errorHandling (config ?sib)) (steps ?sib)
      (mutate (set_startTime (clock (state ?sib))) (state ?sib)) = (r', ss', w1')"
    by (metis prod_cases3)
  note run' = rejected_data_run [OF rs']
  note ex' = execute_after_loop [OF rejected_data_facts(1) rs']
  from run' ex'(2) [of "WorkflowError ''Workflow failed at step: Validation'' ''Validation'' ''WORKFLOW_ERROR''"]
  have c: "fst (execute ?sib) =
       Inl (WorkflowError ''Workflow failed at step: Validation'' ''Validation'' ''WORKFLOW_ERROR'')"
    by simp
  from run' have d: "map (\<lambda>s. (name s, status s, calls s)) (steps (snd (execute ?sib))) =
       [(''DataInput'', COMPLETED, 1), (''Validation'', FAILED, 1), (''Report'', PENDING, 0)]"
    by (simp add: ex'(1))
  from a b c d show ?thesis by (simp add: example_facts)
qed

text \<open>
  C3, at the input where the code departs from it. With \<^verbatim>\<open>maxRetries = 2\<close> the second
  of three steps fails once with a network error and succeeds on the first retry. Its
  \<^verbatim>\<open>execute\<close> is called exactly twice, but its status stays FAILED: with
  \<^verbatim>\<open>fallbackEnabled = true\<close> the run returns a report with status FAILED, and with
  \<^verbatim>\<open>fallbackEnabled = false\<close> the run throws ``Workflow failed at step: Validation''
  and the third step is never called.
\<close>

theorem retried_step_stays_failed:
  "maxRetries (errorHandling (config (flaky_pipeline True))) = 2
   \<and> map (\<lambda>s. (name s, status s, calls s)) (steps (snd (execute (flaky_pipeline True)))) =
       [(''DataInput'', COMPLETED, 1), (''Validation'', FAILED, 2), (''Report'', COMPLETED, 1)]
   \<and> (\<exists>rep. fst (execute (flaky_pipeline True)) = Inr rep \<and> rep_status rep = REPORT_FAILED
         \<and> sum_failedSteps (rep_summary rep) = 1 \<and> sum_completedSteps (rep_summary rep) = 2)
   \<and> fst (execute (flaky_pipeline False)) =
       Inl (WorkflowError ''Workflow failed at step: Validation'' ''Validation'' ''WORKFLOW_ERROR'')
   \<and> map (\<lambda>s. (name s, status s, calls s)) (steps (snd (execute (flaky_pipeline False)))) =
       [(''DataInput'', COMPLETED, 1), (''Validation'', FAILED, 2), (''Report'', PENDING, 0)]"
proof -
  let ?t = "flaky_pipeline True" and ?f = "flaky_pipeline False"
  obtain r ss w1 where rs: "run_steps (errorHandling (config ?t)) (steps ?t)
      (mutate (set_startTime (clock (state ?t))) (state ?t)) = (r, ss, w1)"
    by (metis prod_cases3)
  note run = flaky_run [OF rs]
  note ex = execute_after_loop [OF example_facts(1) rs]
  from run have r: "r = Inr ()" by simp
  from execute_completes [OF example_facts(1) rs [unfolded r]] obtain rep
    where rep: "fst (execute ?t) = Inr rep"
      "generateExecutionReport (snd (execute ?t)) = Inr rep" by auto
  from report_of_context [OF rep(2)] run
  have "rep_status rep = REPORT_FAILED \<and> sum_failedSteps (rep_summary rep) = 1
    \<and> sum_completedSteps (rep_summary rep) = 2"
    by (simp add: ex(1))
  with rep(1) have a: "\<exists>rep. fst (execute ?t) = Inr rep \<and> rep_status rep = REPORT_FAILED
         \<and> sum_failedSteps (rep_summary rep) = 1 \<and> sum_completedSteps (rep_summary rep) = 2"
    by blast
  have "map name ss = [''DataInput'', ''Validation'', ''Report'']"
    using run_steps_frame [OF rs] by (simp add: flaky_pipeline_def assemble_facts ok_step_def mock_step_def new_step_def)
  with run have b: "map (\<lambda>s. (name s, status s, calls s)) (steps (snd (execute ?t))) =
       [(''DataInput'', COMPLETED, 1), (''Validation'', FAILED, 2), (''Report'', COMPLETED, 1)]"
    by (simp add: ex(1)) (auto simp: list_eq_iff_nth_eq nth_Cons' split: if_splits)
  obtain r' ss' w1' where rs': "run_steps (errorHandling (config ?f)) (steps ?f)
      (mutate (set_startTime (clock (state ?f))) (state ?f)) = (r', ss', w1')"
    by (metis prod_cases3)
  note run' = flaky_run [OF rs']
  note ex' = execute_after_loop [OF example_facts(1) rs']
  from run' ex'(2) [of "WorkflowError ''Workflow failed at step: Validation'' ''Validation'' ''WORKFLOW_ERROR''"]
  have c: "fst (execute ?f) =
       Inl (WorkflowError ''Workflow failed at step: Validation'' ''Validation'' ''WORKFLOW_ERROR'')"
    by simp
  have "map name ss' = [''DataInput'', ''Validation'', ''Report'']"
    using run_steps_frame [OF rs'] by (simp add: flaky_pipeline_def assemble_facts ok_step_def mock_step_def new_step_def)
  with run' have d: "map (\<lambda>s. (name s, status s, calls s)) (steps (snd (execute ?f))) =
       [(''DataInput'', COMPLETED, 1), (''Validation'', FAILED, 2), (''Report'', PENDING, 0)]"
    by (simp add: ex'(1)) (auto simp: list_eq_iff_nth_eq nth_Cons' split: if_splits)
  from a b c d show ?thesis by (simp add: example_facts)
qed

text \<open>
  What \<^verbatim>\<open>validateWorkflow\<close> does check. A pipeline with fewer than three steps (none
  included) makes \<^verbatim>\<open>execute\<close> fail with a \<^verbatim>\<open>WorkflowError\<close> of step \<^verbatim>\<open>WORKFLOW\<close> before
  any step runs: the step objects, and so their call counts, and the step records are as
  before. Every list of three or more steps passes.
\<close>

theorem short_pipeline_rejected:
  "(length (steps orc) < 3 \<longrightarrow>
      (\<exists>msg. fst (execute orc) = Inl (WorkflowError msg ''WORKFLOW'' ''WORKFLOW_ERROR''))
      \<and> steps (snd (execute orc)) = steps orc
      \<and> stepOutputs (ctx (state (snd (execute orc)))) = stepOutputs (ctx (state orc)))
   \<and> (3 \<le> length ss \<longrightarrow> validateWorkflow ss = Inr ())"
  by (auto simp: execute_def Let_def execute_catch_def validateWorkflow_def set_startTime_def
      set_endTime_def)

theorem short_pipeline_rejected_witness:
  "fst (execute single_step_pipeline) =
     Inl (WorkflowError ''Workflow must have at least 3 steps'' ''WORKFLOW'' ''WORKFLOW_ERROR'')
   \<and> map calls (steps (snd (execute single_step_pipeline))) = [0]
   \<and> validateWorkflow (steps invalid_config_pipeline) = Inr ()"
proof -
  have st: "steps single_step_pipeline =
      [new_step ''DataInput'' [(''source.type'', VStr ''invalid-type'')]
          (storing_fn ''DataInput'' ''inputData'' (VStr ''TechCorp Inc'') 5)]"
    "length (steps invalid_config_pipeline) = 3"
    by (simp_all add: single_step_pipeline_def invalid_config_pipeline_def assemble_facts)
  from st short_pipeline_rejected [of single_step_pipeline "steps invalid_config_pipeline"]
  have "(\<exists>msg. fst (execute single_step_pipeline) = Inl (WorkflowError msg ''WORKFLOW'' ''WORKFLOW_ERROR''))
      \<and> steps (snd (execute single_step_pipeline)) = steps single_step_pipeline
      \<and> validateWorkflow (steps invalid_config_pipeline) = Inr ()"
    by simp
  moreover have "fst (execute single_step_pipeline) =
     Inl (WorkflowError ''Workflow must have at least 3 steps'' ''WORKFLOW'' ''WORKFLOW_ERROR'')"
    by (simp add: st execute_def Let_def execute_catch_def validateWorkflow_def)
  ultimately show ?thesis by (simp add: st new_step_def)
qed

text \<open>
  C5, at the input where the code departs from it. Three steps, the first configured
  with the source type that the integration test ``should validate workflow before
  execution'' calls invalid and expects \<^verbatim>\<open>execute\<close> to reject. Validation passes, every
  step is called once, and \<^verbatim>\<open>execute\<close> returns a report instead of failing with a
  configuration error before any step runs.
\<close>

theorem invalid_step_config_runs:
  "length (steps invalid_config_pipeline) = 3
   \<and> stepConfig (hd (steps invalid_config_pipeline)) = [(''source.type'', VStr ''invalid-type'')]
   \<and> \<not> isl (fst (execute invalid_config_pipeline))
   \<and> map calls (steps (snd (execute invalid_config_pipeline))) = [1, 1, 1]"
proof -
  let ?orc = "invalid_config_pipeline"
  have st: "steps ?orc = [new_step ''DataInput'' [(''source.type'', VStr ''invalid-type'')]
          (storing_fn ''DataInput'' ''inputData'' (VStr ''TechCorp Inc'') 5),
        ok_step ''Validation'', ok_step ''Report'']"
    by (simp add: invalid_config_pipeline_def assemble_facts)
  have "\<And>s k c. s \<in> set (steps ?orc) \<Longrightarrow> \<exists>v. result (body s k c) = Inr v"
    by (auto simp: st ok_step_def new_step_def storing_fn_def)
  from run_steps_all_resolved [where ss = "steps ?orc" and cfg = "errorHandling (config ?orc)"
      and w = "mutate (set_startTime (clock (state ?orc))) (state ?orc)", OF this]
  obtain ss w1 where rs: "run_steps (errorHandling (config ?orc)) (steps ?orc)
      (mutate (set_startTime (clock (state ?orc))) (state ?orc)) = (Inr (), ss, w1)"
    and calls: "map calls ss = map (\<lambda>s. calls s + 1) (steps ?orc)"
    by blast
  from execute_completes [OF example_facts(3) rs] obtain rep
    where "execute ?orc = (Inr rep, ?orc\<lparr> steps := ss, state := mutate (set_endTime (clock w1)) w1 \<rparr>)"
    by blast
  with calls show ?thesis by (simp add: st ok_step_def new_step_def)
qed

text \<open>
  C10. \<^verbatim>\<open>getExecutionReport\<close> is defined only once both timestamps of the run are set:
  with \<^verbatim>\<open>startTime\<close> or \<^verbatim>\<open>endTime\<close> still \<^verbatim>\<open>null\<close> it throws a \<^verbatim>\<open>TypeError\<close> instead of
  returning a report, and with both set it returns one. An assembled orchestrator that
  has not been executed has both \<^verbatim>\<open>null\<close>, so the call fails on it; \<^verbatim>\<open>execute\<close>, however it
  ends, leaves both set.
\<close>

theorem getExecutionReport_before_execute:
  "(startTime (metadata (ctx (state orc))) = None \<or> endTime (metadata (ctx (state orc))) = None \<longrightarrow>
      getExecutionReport orc = Inl (TypeError ''Cannot read properties of null (reading getTime)''))
   \<and> (startTime (metadata (ctx (state orc))) \<noteq> None \<and> endTime (metadata (ctx (state orc))) \<noteq> None \<longrightarrow>
      (\<exists>rep. getExecutionReport orc = Inr rep))
   \<and> getExecutionReport (assemble cfg uuid now heap cpu ss) =
        Inl (TypeError ''Cannot read properties of null (reading getTime)'')
   \<and> startTime (metadata (ctx (state (snd (execute orc))))) \<noteq> None
   \<and> endTime (metadata (ctx (state (snd (execute orc))))) \<noteq> None"
proof (intro conjI impI)
  assume "startTime (metadata (ctx (state orc))) = None \<or> endTime (metadata (ctx (state orc))) = None"
  then show "getExecutionReport orc = Inl (TypeError ''Cannot read properties of null (reading getTime)'')"
    by (auto simp: getExecutionReport_def generateExecutionReport_def Let_def split: option.splits)
next
  assume "startTime (metadata (ctx (state orc))) \<noteq> None \<and> endTime (metadata (ctx (state orc))) \<noteq> None"
  then show "\<exists>rep. getExecutionReport orc = Inr rep"
    using generateExecutionReport_defined [of orc] by (simp add: getExecutionReport_def)
next
  show "getExecutionReport (assemble cfg uuid now heap cpu ss) =
        Inl (TypeError ''Cannot read properties of null (reading getTime)'')"
    using assemble_facts [of cfg uuid now heap cpu ss]
    by (simp add: getExecutionReport_def generateExecutionReport_def Let_def)
next
  define w0 where "w0 = mutate (set_startTime (clock (state orc))) (state orc)"
  obtain r ss w1 where rs: "run_steps (errorHandling (config orc)) (steps orc) w0 = (r, ss, w1)"
    by (metis prod_cases3)
  have st: "state (snd (execute orc)) = mutate (set_endTime (clock w0)) w0
    \<or> state (snd (execute orc)) = mutate (set_endTime (clock w1)) w1"
  proof (cases "validateWorkflow (steps orc)")
    case (Inl e)
    then show ?thesis by (simp add: execute_def Let_def execute_catch_def w0_def)
  next
    case (Inr u)
    then have "validateWorkflow (steps orc) = Inr ()" by simp
    from execute_after_loop(1) [OF this rs [unfolded w0_def]] show ?thesis by simp
  qed
  have s0: "startTime (metadata (ctx w0)) \<noteq> None" by (simp add: w0_def)
  with run_steps_frame [OF rs] have s1: "startTime (metadata (ctx w1)) \<noteq> None" by simp
  from st s0 s1 show "startTime (metadata (ctx (state (snd (execute orc))))) \<noteq> None" by auto
  from st show "endTime (metadata (ctx (state (snd (execute orc))))) \<noteq> None" by auto
qed

theorem getExecutionReport_before_execute_witness:
  "getExecutionReport all_ok_pipeline = Inl (TypeError ''Cannot read properties of null (reading getTime)'')
   \<and> (\<exists>rep. getExecutionReport (snd (execute all_ok_pipeline)) = Inr rep)"
proof -
  have "startTime (metadata (ctx (state all_ok_pipeline))) = None"
    by (simp add: all_ok_pipeline_def assemble_facts)
  with getExecutionReport_before_execute [of all_ok_pipeline]
  have a: "getExecutionReport all_ok_pipeline =
      Inl (TypeError ''Cannot read properties of null (reading getTime)'')"
    by blast
  from getExecutionReport_before_execute [of all_ok_pipeline]
  have "startTime (metadata (ctx (state (snd (execute all_ok_pipeline))))) \<noteq> None
    \<and> endTime (metadata (ctx (state (snd (execute all_ok_pipeline))))) \<noteq> None"
    by blast
  with getExecutionReport_before_execute [of "snd (execute all_ok_pipeline)"]
  have "\<exists>rep. getExecutionReport (snd (execute all_ok_pipeline)) = Inr rep" by blast
  with a show ?thesis by blast
qed

end
